theory Spec2Isabelle
  imports Main "HOL-Library.Sublist" "HOL-Library.List_Lexorder"
begin

section \<open>Text\<close>

text \<open>
  A Python \<open>str\<close> is a sequence of Unicode code points.  A code point is a natural
  number here and a string a list of them, so that the characters beyond ASCII that
  Python's \<open>str.strip\<close>, \<open>str.splitlines\<close> and \<open>re.IGNORECASE\<close> treat specially can be
  written down.  \<open>lit\<close> turns an ASCII literal into such a string.  Process output and
  file contents are taken as decoded text: the \<open>encode()\<close> and
  \<open>decode(errors="ignore")\<close> steps of the source are not modelled.
\<close>

type_synonym pystr = "nat list"

definition lit :: "string \<Rightarrow> pystr" where
  "lit s = map of_char s"

definition LF :: nat where
  "LF = 10"

definition CR :: nat where
  "CR = 13"

text \<open>The characters \<open>str.strip()\<close> removes: those for which \<open>str.isspace()\<close> holds.\<close>

definition py_isspace :: "nat \<Rightarrow> bool" where
  "py_isspace c =
     ((9 \<le> c \<and> c \<le> 13) \<or> (28 \<le> c \<and> c \<le> 32) \<or> c = 133 \<or> c = 160 \<or> c = 5760 \<or>
      (8192 \<le> c \<and> c \<le> 8202) \<or> c = 8232 \<or> c = 8233 \<or> c = 8239 \<or> c = 8287 \<or>
      c = 12288)"

definition py_strip :: "pystr \<Rightarrow> pystr" where
  "py_strip s = rev (dropWhile py_isspace (rev (dropWhile py_isspace s)))"

text \<open>The line boundaries of \<open>str.splitlines()\<close>; CR LF counts as one boundary.\<close>

definition py_islinebreak :: "nat \<Rightarrow> bool" where
  "py_islinebreak c =
     ((10 \<le> c \<and> c \<le> 13) \<or> (28 \<le> c \<and> c \<le> 30) \<or> c = 133 \<or> c = 8232 \<or> c = 8233)"

fun splitlines_from :: "pystr \<Rightarrow> pystr \<Rightarrow> pystr list" where
  "splitlines_from cur [] = (if cur = [] then [] else [cur])"
| "splitlines_from cur [c] =
     (if py_islinebreak c then [cur] else [cur @ [c]])"
| "splitlines_from cur (c # d # ds) =
     (if c = CR \<and> d = LF then cur # splitlines_from [] ds
      else if py_islinebreak c then cur # splitlines_from [] (d # ds)
      else splitlines_from (cur @ [c]) (d # ds))"

definition py_splitlines :: "pystr \<Rightarrow> pystr list" where
  "py_splitlines s = splitlines_from [] s"

text \<open>\<open>sep.join(items)\<close>.\<close>

fun py_join :: "pystr \<Rightarrow> pystr list \<Rightarrow> pystr" where
  "py_join sep [] = []"
| "py_join sep [x] = x"
| "py_join sep (x # y # ys) = x @ sep @ py_join sep (y # ys)"

text \<open>\<open>str(n)\<close> for a count: the decimal digits.\<close>

function str_nat :: "nat \<Rightarrow> pystr" where
  "str_nat n = (if n < 10 then [48 + n] else str_nat (n div 10) @ [48 + n mod 10])"
  by pat_completeness auto
termination
  by (relation "measure (\<lambda>n. n)") auto

declare str_nat.simps [simp del]

section \<open>Line utilities\<close>

text \<open>
  \<^verbatim>\<open>
  def unique_preserve_order(lines):
      seen = set()
      result = []
      for line in lines:
          if line not in seen:
              seen.add(line)
              result.append(line)
      return result
  \<close>
  The loop carries \<open>seen\<close> and \<open>result\<close>.
\<close>

fun unique_loop :: "'a list \<Rightarrow> 'a set \<Rightarrow> 'a list \<Rightarrow> 'a list" where
  "unique_loop [] seen result = result"
| "unique_loop (line # lines) seen result =
     (if line \<notin> seen then unique_loop lines (insert line seen) (result @ [line])
      else unique_loop lines seen result)"

definition unique_preserve_order :: "'a list \<Rightarrow> 'a list" where
  "unique_preserve_order lines = unique_loop lines {} []"

text \<open>
  \<^verbatim>\<open>
  def chunked(seq, size):
      if size <= 0:
          yield list(seq)
          return
      for i in range(0, len(seq), size):
          yield list(seq[i : i + size])
  \<close>
  \<open>slice seq i j\<close> is \<open>seq[i:j]\<close> for \<open>0 \<le> i \<le> j\<close> (Python clips the slice to the
  sequence, as \<open>take\<close> and \<open>drop\<close> do).  \<open>chunked_from\<close> is the \<open>for\<close> loop from index
  \<open>i\<close> on; its step is positive, because \<open>size \<le> 0\<close> has returned before the loop.  The
  generator is modelled by the list of the chunks it yields.
\<close>

definition slice :: "'a list \<Rightarrow> nat \<Rightarrow> nat \<Rightarrow> 'a list" where
  "slice seq i j = take (j - i) (drop i seq)"

function chunked_from :: "'a list \<Rightarrow> nat \<Rightarrow> nat \<Rightarrow> 'a list list" where
  "chunked_from seq step i =
     (if 0 < step \<and> i < length seq
      then slice seq i (i + step) # chunked_from seq step (i + step)
      else [])"
  by pat_completeness auto
termination
  by (relation "measure (\<lambda>(seq, step, i). length seq - i)") auto

declare chunked_from.simps [simp del]

definition chunked :: "'a list \<Rightarrow> int \<Rightarrow> 'a list list" where
  "chunked seq sz = (if sz \<le> 0 then [seq] else chunked_from seq (nat sz) 0)"

section \<open>The extension-exclusion pattern\<close>

text \<open>
  \<^verbatim>\<open>
  EXCLUDE_EXT_REGEX = re.compile(r"\.(css|woff|...|zip)(?:$|\?)", re.IGNORECASE)
  \<close>
  The pattern is kept as a syntax tree: literal characters, sequences, alternatives and
  the anchor \<open>$\<close>.  \<open>rmatch r s\<close> lists, in the order in which Python's backtracking matcher
  tries them, the remainders of \<open>s\<close> after each way of matching \<open>r\<close> at the start of \<open>s\<close>;
  \<open>re_search\<close> tries every start position from left to right, the end of the string
  included, as \<open>Pattern.search\<close> does.  The source uses only whether a match exists.

  Under \<open>re.IGNORECASE\<close> a literal letter of a \<open>str\<close> pattern matches the characters whose
  lowercase is that letter or a case equivalent of it.  For an ASCII letter these are the
  letter, its ASCII uppercase and, as the documentation of \<open>re\<close> lists them, U+0130 and
  U+0131 for \<open>i\<close>, U+017F for \<open>s\<close> and U+212A for \<open>k\<close>.  A literal that is no letter
  (a digit, \<open>_\<close>, \<open>.\<close>, \<open>?\<close>) matches itself only.  Without \<open>re.MULTILINE\<close>, \<open>$\<close> matches at
  the end of the string and just before a line feed that ends the string.
\<close>

datatype regex = Lit nat | Seq "regex list" | Alt "regex list" | Eol

definition ignorecase_eq :: "nat \<Rightarrow> nat \<Rightarrow> bool" where
  "ignorecase_eq p c =
     (let lo = (if 65 \<le> p \<and> p \<le> 90 then p + 32 else p)
      in c = lo \<or>
         (97 \<le> lo \<and> lo \<le> 122 \<and>
            (c + 32 = lo \<or> (lo = 105 \<and> (c = 304 \<or> c = 305)) \<or>
             (lo = 115 \<and> c = 383) \<or> (lo = 107 \<and> c = 8490))))"

fun rmatch :: "regex \<Rightarrow> pystr \<Rightarrow> pystr list" where
  "rmatch (Lit p) s =
     (case s of [] \<Rightarrow> [] | c # cs \<Rightarrow> if ignorecase_eq p c then [cs] else [])"
| "rmatch (Seq []) s = [s]"
| "rmatch (Seq (r # rs)) s = concat (map (rmatch (Seq rs)) (rmatch r s))"
| "rmatch (Alt rs) s = concat (map (\<lambda>r. rmatch r s) rs)"
| "rmatch Eol s = (if s = [] \<or> s = [LF] then [s] else [])"

fun re_search :: "regex \<Rightarrow> pystr \<Rightarrow> bool" where
  "re_search r [] = (rmatch r [] \<noteq> [])"
| "re_search r (c # cs) = (rmatch r (c # cs) \<noteq> [] \<or> re_search r cs)"

definition word :: "string \<Rightarrow> regex" where
  "word s = Seq (map Lit (lit s))"

definition EXCLUDED_EXTENSIONS :: "string list" where
  "EXCLUDED_EXTENSIONS = [
      ''css'', ''woff'', ''woff2'', ''txt'', ''js'', ''m4r'', ''m4p'', ''m4b'', ''ipa'',
      ''asa'', ''pkg'', ''crash'', ''asf'', ''asx'', ''wax'', ''wmv'', ''wmx'', ''avi'',
      ''bmp'', ''class'', ''divx'', ''doc'', ''docx'', ''exe'', ''gif'', ''gz'',
      ''gzip'', ''ico'', ''jpg'', ''jpeg'', ''jpe'', ''webp'', ''json'', ''mdb'',
      ''mid'', ''midi'', ''mov'', ''qt'', ''mp3'', ''m4a'', ''mp4'', ''m4v'', ''mpeg'',
      ''mpg'', ''mpe'', ''webm'', ''mpp'', ''_otf'', ''odb'', ''odc'', ''odf'', ''odg'',
      ''odp'', ''ods'', ''odt'', ''ogg'', ''pdf'', ''png'', ''pot'', ''pps'', ''ppt'',
      ''pptx'', ''ra'', ''ram'', ''svg'', ''svgz'', ''swf'', ''tar'', ''tif'', ''tiff'',
      ''_ttf'', ''wav'', ''wma'', ''wri'', ''xla'', ''xls'', ''xlsx'', ''xlt'', ''xlw'',
      ''zip'']"

definition EXCLUDE_EXT_REGEX :: regex where
  "EXCLUDE_EXT_REGEX =
     Seq [Lit 46, Alt (map word EXCLUDED_EXTENSIONS), Alt [Eol, Lit 63]]"

text \<open>
  The comprehension of \<open>filter_with_gf_uro_httpx\<close>:
  \<^verbatim>\<open>
  filtered = [
      url for url in gf_lines if "=" in url and not EXCLUDE_EXT_REGEX.search(url)
  ]
  \<close>
\<close>

definition structural_filter :: "pystr list \<Rightarrow> pystr list" where
  "structural_filter gf_lines =
     filter (\<lambda>url. 61 \<in> set url \<and> \<not> re_search EXCLUDE_EXT_REGEX url) gf_lines"

text \<open>
  The words of the specification: an extension is listed when its ASCII lowercase is one
  of the extensions of the pattern.  \<open>listed_ignorecase\<close> is the same with the case
  equivalence of \<open>re.IGNORECASE\<close>; the two agree on ASCII text.
\<close>

definition ascii_lower :: "nat \<Rightarrow> nat" where
  "ascii_lower c = (if 65 \<le> c \<and> c \<le> 90 then c + 32 else c)"

definition listed_extension :: "pystr \<Rightarrow> bool" where
  "listed_extension e = list_ex (\<lambda>w. map ascii_lower e = lit w) EXCLUDED_EXTENSIONS"

definition listed_ignorecase :: "pystr \<Rightarrow> bool" where
  "listed_ignorecase e = list_ex (\<lambda>w. list_all2 ignorecase_eq (lit w) e) EXCLUDED_EXTENSIONS"

text \<open>
  The parts of a URL: \<open>before_query\<close> is the text up to the first \<open>?\<close>, \<open>query_part\<close> the
  rest (from that \<open>?\<close> on), and \<open>final_extension\<close> the text after the last dot of a string,
  if it has a dot.
\<close>

definition before_query :: "pystr \<Rightarrow> pystr" where
  "before_query u = takeWhile (\<lambda>c. c \<noteq> 63) u"

definition query_part :: "pystr \<Rightarrow> pystr" where
  "query_part u = dropWhile (\<lambda>c. c \<noteq> 63) u"

definition final_extension :: "pystr \<Rightarrow> pystr option" where
  "final_extension s =
     (if 46 \<in> set s then Some (rev (takeWhile (\<lambda>c. c \<noteq> 46) (rev s))) else None)"

section \<open>Files, processes and the event log\<close>

text \<open>
  The working directory is a map from file names to the text of regular files; every
  name is absent or names a readable and writable text file, so that failures of the
  operating system (permissions, a directory in place of a file, a full disk) are
  outside the model.  Newline translation on writing is that of a POSIX system (none).

  The external programs are one function \<open>tool\<close> of the environment: from the argument
  list, the text piped to standard input, the files and a state \<open>'e\<close> of what lies outside
  the program (network, archives, clock) to the exit status, the two output streams, the
  files as the program leaves them and the next outside state.  \<open>which\<close> is
  \<open>shutil.which\<close>.  A started program is taken to complete: \<open>subprocess.run\<close> failing
  to start one is not modelled.

  What the run does to the outside is written to an event log in order: a completed
  process with its exit status, a \<open>time.sleep\<close> (in milliseconds), a write to standard
  output or to standard error.
\<close>

type_synonym fs = "pystr \<rightharpoonup> pystr"

record tool_result =
  t_returncode :: int
  t_stdout :: pystr
  t_stderr :: pystr

record call =
  c_args :: "pystr list"
  c_input :: "pystr option"
  c_output_file :: "pystr option"
  c_append :: bool

datatype event = Exec call int | Sleep nat | Stdout pystr | Stderr pystr

record 'e env =
  which :: "pystr \<Rightarrow> pystr option"
  tool :: "pystr list \<Rightarrow> pystr option \<Rightarrow> fs \<Rightarrow> 'e \<Rightarrow> tool_result \<times> fs \<times> 'e"
  banner :: pystr

record 'e world =
  files :: fs
  ext :: 'e
  events :: "event list"

datatype error = RuntimeError pystr | SystemExit int | FileNotFoundError pystr

text \<open>
  A statement of the program takes the world and returns a value or the exception it
  raises, with the world it leaves.  \<open>io_bind\<close> is sequencing: an exception skips the
  rest.
\<close>

type_synonym ('e, 'a) io = "'e world \<Rightarrow> (error + 'a) \<times> 'e world"

definition io_return :: "'a \<Rightarrow> ('e, 'a) io" where
  "io_return x w = (Inr x, w)"

definition io_raise :: "error \<Rightarrow> ('e, 'a) io" where
  "io_raise e w = (Inl e, w)"

definition io_bind :: "('e, 'a) io \<Rightarrow> ('a \<Rightarrow> ('e, 'b) io) \<Rightarrow> ('e, 'b) io" where
  "io_bind m f w = (case m w of (Inl e, w') \<Rightarrow> (Inl e, w') | (Inr x, w') \<Rightarrow> f x w')"

definition log_event :: "event \<Rightarrow> 'e world \<Rightarrow> 'e world" where
  "log_event ev w = w\<lparr>events := events w @ [ev]\<rparr>"

definition emit :: "event \<Rightarrow> ('e, unit) io" where
  "emit ev w = (Inr (), log_event ev w)"

definition sleep_ms :: "nat \<Rightarrow> ('e, unit) io" where
  "sleep_ms ms = emit (Sleep ms)"

text \<open>
  \<^verbatim>\<open>
  def log_info(message):
      sys.stdout.write(message + "\n")
  \<close>
\<close>

definition log_info :: "pystr \<Rightarrow> ('e, unit) io" where
  "log_info message = emit (Stdout (message @ [LF]))"

definition print_banner :: "'e env \<Rightarrow> ('e, unit) io" where
  "print_banner env = emit (Stdout (banner env @ [LF]))"

text \<open>
  \<^verbatim>\<open>
  def ensure_tools_exist(tools):
      missing = [tool for tool in tools if shutil.which(tool) is None]
      return (len(missing) == 0, missing)
  \<close>
\<close>

definition ensure_tools_exist :: "'e env \<Rightarrow> pystr list \<Rightarrow> bool \<times> pystr list" where
  "ensure_tools_exist env tools =
     (let missing = filter (\<lambda>t. which env t = None) tools
      in (length missing = 0, missing))"

text \<open>
  \<open>run_command\<close>.  With \<open>verbose\<close> the command line goes to standard error before the
  process starts and the captured error stream after it.  With \<open>output_file\<close> the file
  is opened before the process starts (\<open>"wb"\<close> empties it, \<open>"ab"\<close> keeps it or creates
  it) and the standard output of the process is written to it, after what the file holds
  when the process ends; \<open>proc.stdout\<close> is then \<open>None\<close>.  The parameter
  \<open>capture_output\<close> of the source is never read and is left out.
\<close>

record proc =
  returncode :: int
  stdout :: "pystr option"

definition open_for_output :: "fs \<Rightarrow> pystr option \<Rightarrow> bool \<Rightarrow> fs" where
  "open_for_output fs output_file appending =
     (case output_file of
        None \<Rightarrow> fs
      | Some path \<Rightarrow>
          fs(path \<mapsto> (if appending then (case fs path of None \<Rightarrow> [] | Some old \<Rightarrow> old) else [])))"

definition redirect_output :: "fs \<Rightarrow> pystr option \<Rightarrow> pystr \<Rightarrow> fs" where
  "redirect_output fs output_file out =
     (case output_file of
        None \<Rightarrow> fs
      | Some path \<Rightarrow> fs(path \<mapsto> (case fs path of None \<Rightarrow> [] | Some text \<Rightarrow> text) @ out))"

definition run_command ::
    "'e env \<Rightarrow> pystr list \<Rightarrow> pystr option \<Rightarrow> pystr option \<Rightarrow> bool \<Rightarrow> bool \<Rightarrow> ('e, proc) io" where
  "run_command env args input_text output_file appending verbose w =
     (let w1 = (if verbose
                then log_event (Stderr (lit ''[cmd] '' @ py_join (lit '' '') args @ [LF])) w
                else w);
          fs1 = open_for_output (files w1) output_file appending;
          (res, fs2, ext2) = tool env args input_text fs1 (ext w1);
          fs3 = redirect_output fs2 output_file (t_stdout res);
          w2 = log_event
                 (Exec \<lparr>c_args = args, c_input = input_text, c_output_file = output_file,
                          c_append = appending\<rparr> (t_returncode res))
                 (w1\<lparr>files := fs3, ext := ext2\<rparr>);
          w3 = (if verbose \<and> t_stderr res \<noteq> [] then log_event (Stderr (t_stderr res)) w2 else w2)
      in (Inr \<lparr>returncode = t_returncode res,
               stdout = (case output_file of None \<Rightarrow> Some (t_stdout res) | Some _ \<Rightarrow> None)\<rparr>,
          w3))"

text \<open>\<open>proc.stdout.decode(errors="ignore").splitlines() if proc.stdout else []\<close>.\<close>

definition stdout_lines :: "proc \<Rightarrow> pystr list" where
  "stdout_lines p =
     (case stdout p of None \<Rightarrow> [] | Some out \<Rightarrow> if out = [] then [] else py_splitlines out)"

text \<open>
  Reading a text file: \<open>open(path, "r")\<close> translates CR LF and CR to LF, and iterating
  over the file yields the lines with their line feed (the last line may lack one).
  \<^verbatim>\<open>
  def read_lines(path):
      if not os.path.exists(path):
          return []
      with open(path, "r", encoding="utf-8", errors="ignore") as f:
          return [line.strip() for line in f if line.strip()]

  def write_lines(path, lines):
      with open(path, "w", encoding="utf-8") as f:
          for line in lines:
              f.write(f"{line}\n")
  \<close>
\<close>

fun universal_newlines :: "pystr \<Rightarrow> pystr" where
  "universal_newlines [] = []"
| "universal_newlines [c] = [if c = CR then LF else c]"
| "universal_newlines (c # d # ds) =
     (if c = CR \<and> d = LF then LF # universal_newlines ds
      else if c = CR then LF # universal_newlines (d # ds)
      else c # universal_newlines (d # ds))"

fun file_lines_from :: "pystr \<Rightarrow> pystr \<Rightarrow> pystr list" where
  "file_lines_from cur [] = (if cur = [] then [] else [cur])"
| "file_lines_from cur (c # cs) =
     (if c = LF then (cur @ [LF]) # file_lines_from [] cs
      else file_lines_from (cur @ [c]) cs)"

definition file_lines :: "pystr \<Rightarrow> pystr list" where
  "file_lines text = file_lines_from [] (universal_newlines text)"

definition path_exists :: "'e world \<Rightarrow> pystr \<Rightarrow> bool" where
  "path_exists w path = (files w path \<noteq> None)"

definition open_read :: "pystr \<Rightarrow> ('e, pystr) io" where
  "open_read path w =
     (case files w path of
        None \<Rightarrow> (Inl (FileNotFoundError path), w)
      | Some text \<Rightarrow> (Inr text, w))"

definition read_lines :: "pystr \<Rightarrow> ('e, pystr list) io" where
  "read_lines path w =
     (if \<not> path_exists w path then io_return [] w
      else io_bind (open_read path)
             (\<lambda>text. io_return
                (map py_strip (filter (\<lambda>line. py_strip line \<noteq> []) (file_lines text)))) w)"

definition write_lines :: "pystr \<Rightarrow> pystr list \<Rightarrow> ('e, unit) io" where
  "write_lines path lines w =
     (Inr (), w\<lparr>files := (files w)(path \<mapsto> concat (map (\<lambda>line. line @ [LF]) lines))\<rparr>)"

text \<open>\<open>if os.path.exists(path): os.remove(path)\<close>.\<close>

definition remove_if_exists :: "pystr \<Rightarrow> ('e, unit) io" where
  "remove_if_exists path w =
     (if path_exists w path then (Inr (), w\<lparr>files := (files w)(path := None)\<rparr>) else (Inr (), w))"

text \<open>\<open>"\n".join(batch) + "\n"\<close>.\<close>

definition batch_input :: "pystr list \<Rightarrow> pystr" where
  "batch_input batch = py_join [LF] batch @ [LF]"

text \<open>\<open>rate_limit if rate_limit > 0 else len(seq)\<close>, the chunk size at every batching site.\<close>

definition batch_size :: "int \<Rightarrow> 'a list \<Rightarrow> int" where
  "batch_size rate_limit seq = (if rate_limit > 0 then rate_limit else int (length seq))"

section \<open>The stages\<close>

text \<open>
  \<open>subfinder_to_httpx\<close>.  \<open>httpx_batches\<close> is its \<open>for idx, batch in enumerate(...)\<close>
  loop: each batch is piped to \<open>httpx -silent\<close> with its output redirected to \<open>subs_out\<close>,
  appending from the second batch on.
\<close>

fun httpx_batches ::
    "'e env \<Rightarrow> pystr \<Rightarrow> int \<Rightarrow> bool \<Rightarrow> nat \<Rightarrow> pystr list list \<Rightarrow> ('e, unit) io" where
  "httpx_batches env subs_out rate_limit verbose idx [] = io_return ()"
| "httpx_batches env subs_out rate_limit verbose idx (batch # rest) =
     io_bind (run_command env [lit ''httpx'', lit ''-silent''] (Some (batch_input batch))
                (Some subs_out) (idx \<noteq> 0) verbose)
       (\<lambda>proc2.
          if returncode proc2 \<noteq> 0
          then io_raise (RuntimeError (lit ''httpx failed while probing subdomains''))
          else io_bind (if rate_limit > 0 then sleep_ms 100 else io_return ())
                 (\<lambda>_. httpx_batches env subs_out rate_limit verbose (idx + 1) rest))"

definition subfinder_to_httpx ::
    "'e env \<Rightarrow> pystr \<Rightarrow> pystr \<Rightarrow> int \<Rightarrow> bool \<Rightarrow> ('e, nat \<times> nat) io" where
  "subfinder_to_httpx env domain subs_out rate_limit verbose =
     io_bind (run_command env
                [lit ''subfinder'', lit ''-d'', domain, lit ''-all'', lit ''-silent'']
                None None False verbose)
       (\<lambda>proc.
          if returncode proc \<noteq> 0 then io_raise (RuntimeError (lit ''subfinder failed''))
          else
            let subdomains =
                  map py_strip (filter (\<lambda>s. py_strip s \<noteq> []) (stdout_lines proc))
            in if subdomains = []
               then io_bind (write_lines subs_out []) (\<lambda>_. io_return (0, 0))
               else
                 io_bind (remove_if_exists subs_out)
                   (\<lambda>_. io_bind
                      (httpx_batches env subs_out rate_limit verbose 0
                         (chunked subdomains (batch_size rate_limit subdomains)))
                      (\<lambda>_. io_bind (read_lines subs_out)
                         (\<lambda>live. io_return (length subdomains, length live)))))"

text \<open>\<open>run_waymore\<close>, \<open>run_katana\<close> and \<open>run_knoxnl\<close>: one process, then the line count of its file.\<close>

definition run_waymore :: "'e env \<Rightarrow> pystr \<Rightarrow> pystr \<Rightarrow> bool \<Rightarrow> ('e, nat) io" where
  "run_waymore env subs_file out_file verbose =
     io_bind (run_command env
                [lit ''waymore'', lit ''-i'', subs_file, lit ''-mode'', lit ''U'', lit ''-oU'', out_file]
                None None False verbose)
       (\<lambda>proc.
          if returncode proc \<noteq> 0 then io_raise (RuntimeError (lit ''waymore failed''))
          else io_bind (read_lines out_file) (\<lambda>ls. io_return (length ls)))"

definition run_katana :: "'e env \<Rightarrow> pystr \<Rightarrow> pystr \<Rightarrow> bool \<Rightarrow> ('e, nat) io" where
  "run_katana env subs_file out_file verbose =
     io_bind (run_command env
                [lit ''katana'', lit ''-list'', subs_file, lit ''-headless'', lit ''-jc'', lit ''-d'',
                 lit ''5'', lit ''-o'', out_file]
                None None False verbose)
       (\<lambda>proc.
          if returncode proc \<noteq> 0 then io_raise (RuntimeError (lit ''katana failed''))
          else io_bind (read_lines out_file) (\<lambda>ls. io_return (length ls)))"

definition run_knoxnl :: "'e env \<Rightarrow> pystr \<Rightarrow> pystr \<Rightarrow> bool \<Rightarrow> ('e, nat) io" where
  "run_knoxnl env input_file out_file verbose =
     io_bind (run_command env
                [lit ''knoxnl'', lit ''-i'', input_file, lit ''-X'', lit ''BOTH'', lit ''-s'', lit ''-o'',
                 out_file]
                None None False verbose)
       (\<lambda>proc.
          if returncode proc \<noteq> 0 then io_raise (RuntimeError (lit ''knoxnl failed''))
          else io_bind (read_lines out_file) (\<lambda>ls. io_return (length ls)))"

text \<open>
  \<open>run_gau\<close>.  \<open>gau_batches\<close> is the loop over \<open>enumerate(batches)\<close>; \<open>n_batches\<close> is
  \<open>len(batches)\<close>.  The pause comes between batches only.
\<close>

fun gau_batches ::
    "'e env \<Rightarrow> pystr \<Rightarrow> int \<Rightarrow> bool \<Rightarrow> nat \<Rightarrow> nat \<Rightarrow> pystr list list \<Rightarrow> ('e, unit) io" where
  "gau_batches env out_file rate_limit verbose n_batches i [] = io_return ()"
| "gau_batches env out_file rate_limit verbose n_batches i (batch # rest) =
     io_bind (run_command env [lit ''gau'', lit ''--subs'', lit ''-o'', out_file]
                (Some (batch_input batch)) None False verbose)
       (\<lambda>proc.
          if returncode proc \<noteq> 0 then io_raise (RuntimeError (lit ''gau failed''))
          else io_bind (if rate_limit > 0 \<and> i + 1 < n_batches then sleep_ms 100 else io_return ())
                 (\<lambda>_. gau_batches env out_file rate_limit verbose n_batches (i + 1) rest))"

definition run_gau :: "'e env \<Rightarrow> pystr \<Rightarrow> pystr \<Rightarrow> int \<Rightarrow> bool \<Rightarrow> ('e, nat) io" where
  "run_gau env subs_file out_file rate_limit verbose =
     io_bind (read_lines subs_file)
       (\<lambda>subs.
          if subs = [] then io_bind (write_lines out_file []) (\<lambda>_. io_return 0)
          else
            io_bind (remove_if_exists out_file)
              (\<lambda>_. let batches = chunked subs (batch_size rate_limit subs)
                    in io_bind (gau_batches env out_file rate_limit verbose (length batches) 0 batches)
                         (\<lambda>_. io_bind (read_lines out_file) (\<lambda>ls. io_return (length ls)))))"

text \<open>
  \<^verbatim>\<open>
  def merge_histories(outputs, merged_out):
      all_lines = []
      for path in outputs:
          all_lines.extend(read_lines(path))
      merged = unique_preserve_order(all_lines)
      write_lines(merged_out, merged)
  \<close>
\<close>

fun read_all :: "pystr list \<Rightarrow> pystr list \<Rightarrow> ('e, pystr list) io" where
  "read_all [] all_lines = io_return all_lines"
| "read_all (path # paths) all_lines =
     io_bind (read_lines path) (\<lambda>ls. read_all paths (all_lines @ ls))"

definition merge_histories :: "pystr list \<Rightarrow> pystr \<Rightarrow> ('e, unit) io" where
  "merge_histories outputs merged_out =
     io_bind (read_all outputs [])
       (\<lambda>all_lines. write_lines merged_out (unique_preserve_order all_lines))"

text \<open>
  \<open>filter_with_gf_uro_httpx\<close>.  \<open>uro_batches\<close> and \<open>probe_batches\<close> are its two batching
  loops, carrying \<open>normalized_all\<close> and \<open>probed_all\<close>; \<open>sorted(set(lines))\<close> orders strings
  by code points.  \<open>normalize_and_probe\<close> is the function from the comment
  \<open># uro normalization\<close> on, reached when \<open>filtered\<close> is not empty.
\<close>

fun uro_batches ::
    "'e env \<Rightarrow> int \<Rightarrow> bool \<Rightarrow> pystr list \<Rightarrow> pystr list list \<Rightarrow> ('e, pystr list) io" where
  "uro_batches env rate_limit verbose normalized_all [] = io_return normalized_all"
| "uro_batches env rate_limit verbose normalized_all (batch # rest) =
     io_bind (run_command env [lit ''uro''] (Some (batch_input batch)) None False verbose)
       (\<lambda>proc_uro.
          if returncode proc_uro \<noteq> 0 then io_raise (RuntimeError (lit ''uro failed''))
          else io_bind (if rate_limit > 0 then sleep_ms 50 else io_return ())
                 (\<lambda>_. uro_batches env rate_limit verbose
                         (normalized_all @ stdout_lines proc_uro) rest))"

fun probe_batches ::
    "'e env \<Rightarrow> int \<Rightarrow> bool \<Rightarrow> pystr list \<Rightarrow> pystr list list \<Rightarrow> ('e, pystr list) io" where
  "probe_batches env rate_limit verbose probed_all [] = io_return probed_all"
| "probe_batches env rate_limit verbose probed_all (batch # rest) =
     io_bind (run_command env [lit ''httpx'', lit ''-silent''] (Some (batch_input batch)) None False
                verbose)
       (\<lambda>proc_httpx.
          if returncode proc_httpx \<noteq> 0
          then io_raise (RuntimeError (lit ''httpx failed while probing URLs''))
          else io_bind (if rate_limit > 0 then sleep_ms 50 else io_return ())
                 (\<lambda>_. probe_batches env rate_limit verbose
                         (probed_all @ stdout_lines proc_httpx) rest))"

definition normalize_and_probe ::
    "'e env \<Rightarrow> pystr \<Rightarrow> int \<Rightarrow> bool \<Rightarrow> pystr list \<Rightarrow> pystr list \<Rightarrow>
     ('e, nat \<times> nat \<times> nat \<times> nat) io" where
  "normalize_and_probe env final_out rate_limit verbose gf_lines filtered =
     io_bind (remove_if_exists final_out)
       (\<lambda>_. io_bind
          (uro_batches env rate_limit verbose []
             (chunked filtered (batch_size rate_limit filtered)))
          (\<lambda>normalized_raw.
             let normalized_all =
                   unique_preserve_order (filter (\<lambda>s. py_strip s \<noteq> []) normalized_raw)
             in if normalized_all = []
                then io_bind (write_lines final_out [])
                       (\<lambda>_. io_return (length gf_lines, length filtered, 0, 0))
                else
                  io_bind
                    (probe_batches env rate_limit verbose []
                       (chunked normalized_all (batch_size rate_limit normalized_all)))
                    (\<lambda>probed_raw.
                       let probed_all =
                             unique_preserve_order (filter (\<lambda>s. py_strip s \<noteq> []) probed_raw)
                       in io_bind (write_lines final_out probed_all)
                            (\<lambda>_. io_return
                               (length gf_lines, length filtered, length normalized_all,
                                length probed_all)))))"

definition filter_with_gf_uro_httpx ::
    "'e env \<Rightarrow> pystr \<Rightarrow> pystr \<Rightarrow> int \<Rightarrow> bool \<Rightarrow> ('e, nat \<times> nat \<times> nat \<times> nat) io" where
  "filter_with_gf_uro_httpx env merged_in final_out rate_limit verbose =
     io_bind (read_lines merged_in)
       (\<lambda>lines0.
          if lines0 = [] then io_bind (write_lines final_out []) (\<lambda>_. io_return (0, 0, 0, 0))
          else
            let lines = sorted_list_of_set (set lines0) in
            io_bind (run_command env [lit ''gf'', lit ''xss''] (Some (batch_input lines)) None False
                       verbose)
              (\<lambda>proc_gf.
                 if returncode proc_gf \<noteq> 0 then io_raise (RuntimeError (lit ''gf xss failed''))
                 else
                   let gf_lines = stdout_lines proc_gf;
                       filtered = structural_filter gf_lines
                   in if filtered = []
                      then io_bind (write_lines final_out [])
                             (\<lambda>_. io_return (length gf_lines, 0, 0, 0))
                      else normalize_and_probe env final_out rate_limit verbose gf_lines
                             filtered))"

section \<open>The driver\<close>

text \<open>
  \<open>main\<close> after \<open>argparse\<close>: the arguments are the parsed command line, with \<open>--mode\<close> one
  of its three choices.  The messages are the source's; code point 10003 is the check
  mark, 8594 the arrow and 39 the apostrophe.  \<open>history_stages\<close> is step 2 of \<open>main\<close> and
  returns the list \<open>generated\<close>; \<open>merge_filter_scan\<close> is steps 3 to 5; \<open>after_discovery\<close>
  is all that follows the call of \<open>subfinder_to_httpx\<close>.
\<close>

datatype mode = Waymore | Waymore_katana | All_sources

record args =
  arg_domain :: pystr
  arg_mode :: mode
  arg_rate_limit :: int
  arg_verbose :: bool

definition subs_file :: pystr where "subs_file = lit ''subs.txt''"
definition waymore_file :: pystr where "waymore_file = lit ''xss-waymore.txt''"
definition katana_file :: pystr where "katana_file = lit ''xss-katana.txt''"
definition gau_file :: pystr where "gau_file = lit ''xss-gau.txt''"
definition merged_file :: pystr where "merged_file = lit ''xss.txt''"
definition knox_out :: pystr where "knox_out = lit ''xssoutput.txt''"

definition check_mark :: pystr where
  "check_mark = lit ''['' @ [10003] @ lit '']''"

definition required_tools :: "mode \<Rightarrow> pystr list" where
  "required_tools m =
     [lit ''subfinder'', lit ''httpx'', lit ''gf'', lit ''uro'', lit ''knoxnl''] @
     (if m \<in> {Waymore, Waymore_katana, All_sources} then [lit ''waymore''] else []) @
     (if m \<in> {Waymore_katana, All_sources} then [lit ''katana''] else []) @
     (if m = All_sources then [lit ''gau''] else [])"

definition history_stages :: "'e env \<Rightarrow> mode \<Rightarrow> int \<Rightarrow> bool \<Rightarrow> ('e, pystr list) io" where
  "history_stages env m rate verbose =
     io_bind
       (if m \<in> {Waymore, Waymore_katana, All_sources}
        then io_bind (log_info (lit ''>>> waymore: collecting historical URLs ...''))
               (\<lambda>_. io_bind (run_waymore env subs_file waymore_file verbose)
                  (\<lambda>waymore_count. io_bind
                     (log_info (check_mark @ lit '' waymore: '' @ str_nat waymore_count @ lit '' URLs''))
                     (\<lambda>_. io_return [waymore_file])))
        else io_return [])
       (\<lambda>generated1. io_bind
          (if m \<in> {Waymore_katana, All_sources}
           then io_bind (log_info (lit ''>>> katana: crawling for URLs ...''))
                  (\<lambda>_. io_bind (run_katana env subs_file katana_file verbose)
                     (\<lambda>katana_count. io_bind
                        (log_info (check_mark @ lit '' katana: '' @ str_nat katana_count @ lit '' URLs''))
                        (\<lambda>_. io_return (generated1 @ [katana_file]))))
           else io_return generated1)
          (\<lambda>generated2.
             if m = All_sources
             then io_bind (log_info (lit ''>>> gau: fetching known URLs ...''))
                    (\<lambda>_. io_bind (run_gau env subs_file gau_file rate verbose)
                       (\<lambda>gau_count. io_bind
                          (log_info (check_mark @ lit '' gau: '' @ str_nat gau_count @ lit '' URLs''))
                          (\<lambda>_. io_return (generated2 @ [gau_file]))))
             else io_return generated2))"

text \<open>\<open>sum(len(read_lines(p)) for p in generated)\<close>.\<close>

fun count_lines :: "pystr list \<Rightarrow> nat \<Rightarrow> ('e, nat) io" where
  "count_lines [] acc = io_return acc"
| "count_lines (path # paths) acc =
     io_bind (read_lines path) (\<lambda>ls. count_lines paths (acc + length ls))"

definition files_saved :: "mode \<Rightarrow> pystr" where
  "files_saved m =
     py_strip (py_join [LF]
       [lit '' - '' @ subs_file,
        lit '' - '' @ (if m \<in> {Waymore, Waymore_katana, All_sources} then waymore_file else []),
        lit '' - '' @ (if m \<in> {Waymore_katana, All_sources} then katana_file else []),
        lit '' - '' @ (if m = All_sources then gau_file else []),
        lit '' - '' @ merged_file,
        lit '' - '' @ knox_out])"

definition merge_filter_scan ::
    "'e env \<Rightarrow> mode \<Rightarrow> int \<Rightarrow> bool \<Rightarrow> pystr list \<Rightarrow> ('e, unit) io" where
  "merge_filter_scan env m rate verbose generated =
     io_bind (log_info (lit ''>>> merge: combining history into xss.txt ...''))
       (\<lambda>_. io_bind (count_lines generated 0)
       (\<lambda>pre_merge_total. io_bind (merge_histories generated merged_file)
       (\<lambda>_. io_bind (read_lines merged_file)
       (\<lambda>merged. io_bind
          (log_info (check_mark @ lit '' merge: '' @ str_nat pre_merge_total @ lit '' total '' @
                     [8594] @ lit '' '' @ str_nat (length merged) @ lit '' unique''))
       (\<lambda>_. io_bind
          (log_info (lit ''>>> filter: gf '' @ [8594] @ lit '' '' @ [39] @ lit ''='' @ [39] @
                     lit '' & ext-filter '' @ [8594] @ lit '' uro '' @ [8594] @ lit '' httpx ...''))
       (\<lambda>_. io_bind (filter_with_gf_uro_httpx env merged_file merged_file rate verbose)
       (\<lambda>(gf_count, filtered_count, normalized_count, live_urls). io_bind
          (log_info (check_mark @ lit '' filter: gf='' @ str_nat gf_count @ lit '' '' @ [8594] @
                     lit '' '' @ [39] @ lit ''='' @ [39] @ lit ''+ext='' @ str_nat filtered_count @
                     lit '' '' @ [8594] @ lit '' uro='' @ str_nat normalized_count @ lit '' '' @
                     [8594] @ lit '' httpx live='' @ str_nat live_urls))
       (\<lambda>_. io_bind (log_info (lit ''>>> knoxnl: scanning for XSS ...''))
       (\<lambda>_. io_bind (run_knoxnl env merged_file knox_out verbose)
       (\<lambda>knox_count. io_bind
          (log_info (check_mark @ lit '' knoxnl: results='' @ str_nat knox_count @ lit '' lines '' @
                     [8594] @ lit '' '' @ knox_out))
       (\<lambda>_. log_info (lit ''[done] Files saved:'' @ [LF] @ files_saved m))))))))))))"

definition after_discovery ::
    "'e env \<Rightarrow> mode \<Rightarrow> int \<Rightarrow> bool \<Rightarrow> nat \<Rightarrow> nat \<Rightarrow> ('e, unit) io" where
  "after_discovery env m rate verbose discovered live =
     io_bind
       (log_info (check_mark @ lit '' subfinder: '' @ str_nat discovered @
                  lit '' discovered; httpx live: '' @ str_nat live))
       (\<lambda>_. io_bind (history_stages env m rate verbose)
          (\<lambda>generated. merge_filter_scan env m rate verbose generated))"

definition main :: "'e env \<Rightarrow> args \<Rightarrow> ('e, unit) io" where
  "main env a =
     io_bind (print_banner env)
       (\<lambda>_.
          let domain = py_strip (arg_domain a);
              m = arg_mode a;
              rate = (if arg_rate_limit a \<noteq> 0 then arg_rate_limit a else 0);
              verbose = arg_verbose a;
              (ok, missing) = ensure_tools_exist env (required_tools m)
          in if \<not> ok
             then io_bind
                    (emit (Stderr (lit ''Missing required tools: '' @ py_join (lit '', '') missing @
                                   [LF])))
                    (\<lambda>_. io_bind
                       (emit (Stderr (lit ''Please install them and ensure they are in PATH.'' @ [LF])))
                       (\<lambda>_. io_raise (SystemExit 1)))
             else
               io_bind (log_info (lit ''>>> subfinder: discovering subdomains for '' @ domain @
                                  lit '' ...''))
                 (\<lambda>_. io_bind (subfinder_to_httpx env domain subs_file rate verbose)
                 (\<lambda>(discovered, live). after_discovery env m rate verbose discovered live)))"

section \<open>Observations\<close>

text \<open>
  What the properties below speak about.  \<open>stored_lines fs path\<close> are the lines of a
  file as the specification describes reading: trimmed, the empty ones dropped, none for
  an absent file.  \<open>render\<close> is the text \<open>write_lines\<close> writes.  \<open>new_events w w'\<close> are the
  events a run from \<open>w\<close> to \<open>w'\<close> has added to the log.
\<close>

definition stored_lines :: "fs \<Rightarrow> pystr \<Rightarrow> pystr list" where
  "stored_lines fs path =
     (case fs path of
        None \<Rightarrow> []
      | Some text \<Rightarrow> filter (\<lambda>line. line \<noteq> []) (map py_strip (file_lines text)))"

definition render :: "pystr list \<Rightarrow> pystr" where
  "render lines = concat (map (\<lambda>line. line @ [LF]) lines)"

definition new_events :: "'e world \<Rightarrow> 'e world \<Rightarrow> event list" where
  "new_events w w' = drop (length (events w)) (events w')"

text \<open>
  \<open>io_spec P G E m\<close> says of a statement \<open>m\<close>, from every world: it only adds events to
  the log, every event it adds satisfies \<open>P\<close>, and either every event it adds satisfies
  \<open>G\<close> or it raises \<open>E\<close>.
\<close>

definition io_spec :: "(event \<Rightarrow> bool) \<Rightarrow> (event \<Rightarrow> bool) \<Rightarrow> error \<Rightarrow> ('e, 'a) io \<Rightarrow> bool" where
  "io_spec P G E m =
     (\<forall>w. \<exists>evs. events (snd (m w)) = events w @ evs \<and> list_all P evs \<and>
              (list_all G evs \<or> fst (m w) = Inl E))"

text \<open>
  \<open>fail_stop P G E m\<close>: from every world \<open>m\<close> only adds events, and either all of them
  satisfy \<open>G\<close>, or \<open>m\<close> raises \<open>E\<close> and all of them satisfy \<open>P\<close>.
\<close>

definition fail_stop :: "(event \<Rightarrow> bool) \<Rightarrow> (event \<Rightarrow> bool) \<Rightarrow> error \<Rightarrow> ('e, 'a) io \<Rightarrow> bool" where
  "fail_stop P G E m =
     (\<forall>w. \<exists>evs. events (snd (m w)) = events w @ evs \<and>
              (list_all G evs \<or> (fst (m w) = Inl E \<and> list_all P evs)))"

fun is_sleep :: "event \<Rightarrow> bool" where
  "is_sleep (Sleep ms) = True"
| "is_sleep ev = False"

text \<open>A process of a history-collection stage: \<open>waymore\<close>, \<open>katana\<close> or \<open>gau\<close>.\<close>

fun history_exec :: "event \<Rightarrow> bool" where
  "history_exec (Exec c rc) =
     (case c_args c of
        [] \<Rightarrow> False
      | prog # _ \<Rightarrow> prog = lit ''waymore'' \<or> prog = lit ''katana'' \<or> prog = lit ''gau'')"
| "history_exec ev = False"

text \<open>
  The liveness prober exiting with a non-zero status in the discovery stage: there, and
  only there, \<open>httpx -silent\<close> runs with its output redirected to a file.
\<close>

fun discovery_probe_failed :: "event \<Rightarrow> bool" where
  "discovery_probe_failed (Exec c rc) =
     (c_args c = [lit ''httpx'', lit ''-silent''] \<and> c_output_file c \<noteq> None \<and> rc \<noteq> 0)"
| "discovery_probe_failed ev = False"

text \<open>
  \<open>command_events verbose c res\<close> are the events of one \<open>run_command\<close>: the process \<open>c\<close>
  with the exit status of \<open>res\<close>, between the two writes to standard error of verbose mode.
  \<open>inputs_of prog evs\<close> lists, in order, what was piped to the processes of the program
  \<open>prog\<close> in \<open>evs\<close>.  \<open>output_lines res\<close> are the lines of the captured standard output, as
  \<open>stdout_lines\<close> splits them.
\<close>

definition command_events :: "bool \<Rightarrow> call \<Rightarrow> tool_result \<Rightarrow> event list" where
  "command_events verbose c res =
     (if verbose then [Stderr (lit ''[cmd] '' @ py_join (lit '' '') (c_args c) @ [LF])] else []) @
     [Exec c (t_returncode res)] @
     (if verbose \<and> t_stderr res \<noteq> [] then [Stderr (t_stderr res)] else [])"

fun inputs_of :: "pystr \<Rightarrow> event list \<Rightarrow> pystr option list" where
  "inputs_of prog [] = []"
| "inputs_of prog (Exec c rc # evs) =
     (if (case c_args c of [] \<Rightarrow> False | name # _ \<Rightarrow> name = prog)
      then c_input c # inputs_of prog evs
      else inputs_of prog evs)"
| "inputs_of prog (ev # evs) = inputs_of prog evs"

definition output_lines :: "tool_result \<Rightarrow> pystr list" where
  "output_lines res = (if t_stdout res = [] then [] else py_splitlines (t_stdout res))"

text \<open>
  \<open>io_post m Q\<close>: from every world \<open>m\<close> only adds events, and \<open>Q\<close> holds of its result and
  the events it adds.  \<open>fed_uro batches n_gf n_filtered r evs\<close> is the outcome of the filter
  step seen at the normaliser: the inputs of the \<open>uro\<close> processes in \<open>evs\<close> are the first
  batches in order, at least one of them, and when the function returns counts \<open>r\<close> they
  are all the batches and the first two counts are \<open>n_gf\<close> and \<open>n_filtered\<close>.
\<close>

definition io_post :: "('e, 'a) io \<Rightarrow> (error + 'a \<Rightarrow> event list \<Rightarrow> bool) \<Rightarrow> bool" where
  "io_post m Q = (\<forall>w. \<exists>evs. events (snd (m w)) = events w @ evs \<and> Q (fst (m w)) evs)"

definition fed_uro ::
    "pystr list list \<Rightarrow> nat \<Rightarrow> nat \<Rightarrow> error + nat \<times> nat \<times> nat \<times> nat \<Rightarrow> event list \<Rightarrow> bool" where
  "fed_uro batches n_gf n_filtered r evs =
     (prefix (inputs_of (lit ''uro'') evs) (map (\<lambda>b. Some (batch_input b)) batches) \<and>
      (batches \<noteq> [] \<longrightarrow> inputs_of (lit ''uro'') evs \<noteq> []) \<and>
      (\<forall>a b c d. r = Inr (a, b, c, d) \<longrightarrow>
         a = n_gf \<and> b = n_filtered \<and>
         inputs_of (lit ''uro'') evs = map (\<lambda>b. Some (batch_input b)) batches))"

text \<open>Environments for the examples: every program answers by a script on its name.\<close>

definition scripted_env :: "(pystr \<Rightarrow> pystr option) \<Rightarrow> (pystr \<Rightarrow> tool_result) \<Rightarrow> unit env" where
  "scripted_env wh script =
     \<lparr>which = wh,
      tool = (\<lambda>args input_text fs e.
                (case args of
                   [] \<Rightarrow> \<lparr>t_returncode = 2, t_stdout = [], t_stderr = []\<rparr>
                 | prog # _ \<Rightarrow> script prog,
                 fs, e)),
      banner = lit ''crawlexsses''\<rparr>"

definition example_script :: "int \<Rightarrow> pystr \<Rightarrow> int \<Rightarrow> pystr \<Rightarrow> tool_result" where
  "example_script subfinder_rc subfinder_out httpx_rc prog =
     (if prog = lit ''subfinder''
      then \<lparr>t_returncode = subfinder_rc, t_stdout = subfinder_out, t_stderr = []\<rparr>
      else if prog = lit ''httpx''
      then \<lparr>t_returncode = httpx_rc, t_stdout = lit ''https://a.x.test'' @ [LF], t_stderr = []\<rparr>
      else if prog = lit ''gf''
      then \<lparr>t_returncode = 0,
             t_stdout = lit ''https://x.test/a?x=1'' @ [LF] @ lit ''https://x.test/app.js?x=1'' @ [LF] @
                        lit ''https://x.test/a'' @ [LF] @ lit ''https://x.test/b?y=2'' @ [LF],
             t_stderr = []\<rparr>
      else if prog = lit ''uro''
      then \<lparr>t_returncode = 0,
             t_stdout = lit ''https://x.test/a?x=1'' @ [LF] @ lit ''https://x.test/b?y=2'' @ [LF],
             t_stderr = []\<rparr>
      else \<lparr>t_returncode = 0, t_stdout = [], t_stderr = []\<rparr>)"

definition empty_world :: "unit world" where
  "empty_world = \<lparr>files = Map.empty, ext = (), events = []\<rparr>"

section \<open>Properties of the line utilities\<close>

lemma unique_loop_append:
  "unique_loop (xs @ ys) seen result = unique_loop ys (seen \<union> set xs) (unique_loop xs seen result)"
  by (induction xs arbitrary: seen result) (auto simp: insert_absorb)

lemma unique_preserve_order_Nil: "unique_preserve_order [] = []"
  by (simp add: unique_preserve_order_def)

lemma unique_preserve_order_snoc:
  "unique_preserve_order (xs @ [x]) =
     (if x \<in> set xs then unique_preserve_order xs else unique_preserve_order xs @ [x])"
  by (simp add: unique_preserve_order_def unique_loop_append)

lemma set_unique_preserve_order: "set (unique_preserve_order xs) = set xs"
  by (induction xs rule: rev_induct)
     (auto simp: unique_preserve_order_snoc unique_preserve_order_Nil)

lemma distinct_unique_preserve_order: "distinct (unique_preserve_order xs)"
  by (induction xs rule: rev_induct)
     (auto simp: unique_preserve_order_snoc set_unique_preserve_order unique_preserve_order_Nil)

lemma subseq_unique_preserve_order: "subseq (unique_preserve_order xs) xs"
proof (induction xs rule: rev_induct)
  case Nil
  show ?case by (simp add: unique_preserve_order_Nil)
next
  case (snoc x xs)
  show ?case
  proof (cases "x \<in> set xs")
    case True
    with snoc show ?thesis
      by (simp add: unique_preserve_order_snoc subseq_rev_drop_many)
  next
    case False
    with snoc show ?thesis
      by (simp add: unique_preserve_order_snoc list_emb_append_mono)
  qed
qed

lemma unique_preserve_order_distinct:
  "distinct xs \<Longrightarrow> unique_preserve_order xs = xs"
  by (induction xs rule: rev_induct)
     (auto simp: unique_preserve_order_snoc unique_preserve_order_Nil)

lemma first_occurrence_indices_snoc:
  "map (\<lambda>i. (xs @ [x]) ! i) (filter (\<lambda>i. (xs @ [x]) ! i \<notin> set (take i (xs @ [x]))) [0..<length xs])
   = map (\<lambda>i. xs ! i) (filter (\<lambda>i. xs ! i \<notin> set (take i xs)) [0..<length xs])"
proof -
  have "filter (\<lambda>i. (xs @ [x]) ! i \<notin> set (take i (xs @ [x]))) [0..<length xs]
        = filter (\<lambda>i. xs ! i \<notin> set (take i xs)) [0..<length xs]"
    by (rule filter_cong) (auto simp: nth_append)
  moreover have "map (\<lambda>i. (xs @ [x]) ! i) (filter (\<lambda>i. xs ! i \<notin> set (take i xs)) [0..<length xs])
        = map (\<lambda>i. xs ! i) (filter (\<lambda>i. xs ! i \<notin> set (take i xs)) [0..<length xs])"
    by (rule map_cong) (auto simp: nth_append)
  ultimately show ?thesis by simp
qed

lemma unique_preserve_order_first_occurrences:
  "unique_preserve_order xs =
     map (\<lambda>i. xs ! i) (filter (\<lambda>i. xs ! i \<notin> set (take i xs)) [0..<length xs])"
proof (induction xs rule: rev_induct)
  case Nil
  show ?case by (simp add: unique_preserve_order_Nil)
next
  case (snoc x xs)
  show ?case
    using snoc first_occurrence_indices_snoc [of xs x]
    by (simp add: unique_preserve_order_snoc)
qed

lemma concat_chunked_from:
  "0 < step \<Longrightarrow> concat (chunked_from seq step i) = drop i seq"
proof (induction seq step i rule: chunked_from.induct)
  case (1 seq step i)
  show ?case
  proof (cases "i < length seq")
    case True
    have "take step (drop i seq) @ drop (i + step) seq = drop i seq"
      by (metis add.commute append_take_drop_id drop_drop)
    with True 1 show ?thesis
      by (subst chunked_from.simps) (simp add: slice_def)
  next
    case False
    then show ?thesis
      by (subst chunked_from.simps) simp
  qed
qed

section \<open>Properties of reading, writing and merging\<close>

lemma py_strip_idem: "py_strip (py_strip s) = py_strip s"
proof -
  let ?u = "dropWhile py_isspace s"
  let ?t = "rev (dropWhile py_isspace (rev ?u))"
  have t: "py_strip s = ?t" by (simp add: py_strip_def)
  show ?thesis
  proof (cases "?t = []")
    case True
    with t have "py_strip s = []" by simp
    moreover have "py_strip [] = []" by (simp add: py_strip_def)
    ultimately show ?thesis by simp
  next
    case False
    then have ne: "dropWhile py_isspace (rev ?u) \<noteq> []" by simp
    have "takeWhile py_isspace (rev ?u) @ dropWhile py_isspace (rev ?u) = rev ?u" by simp
    then have "?u = ?t @ rev (takeWhile py_isspace (rev ?u))"
      by (metis rev_append rev_rev_ident)
    with False have "hd ?u = hd ?t" by (metis hd_append2)
    moreover have "?u \<noteq> []"
    proof
      assume "?u = []"
      with ne show False by simp
    qed
    then have "\<not> py_isspace (hd ?u)" by (rule hd_dropWhile)
    ultimately have "\<not> py_isspace (hd ?t)" by simp
    with False have front: "dropWhile py_isspace ?t = ?t"
      by (simp add: dropWhile_eq_self_iff)
    from ne have "\<not> py_isspace (hd (dropWhile py_isspace (rev ?u)))" by (rule hd_dropWhile)
    with ne have rear: "dropWhile py_isspace (dropWhile py_isspace (rev ?u)) = dropWhile py_isspace (rev ?u)"
      by (simp add: dropWhile_eq_self_iff)
    have "py_strip ?t = rev (dropWhile py_isspace (rev (dropWhile py_isspace ?t)))"
      by (simp only: py_strip_def)
    also have "\<dots> = rev (dropWhile py_isspace (rev ?t))" by (simp only: front)
    also have "\<dots> = ?t" using rear by simp
    finally show ?thesis using t by simp
  qed
qed

lemma concat_file_lines_from: "concat (file_lines_from cur s) = cur @ s"
  by (induction s arbitrary: cur) auto

lemma concat_file_lines: "concat (file_lines text) = universal_newlines text"
  by (simp add: file_lines_def concat_file_lines_from)

lemma read_lines_stored: "read_lines path w = (Inr (stored_lines (files w) path), w)"
  by (cases "files w path")
     (simp_all add: read_lines_def stored_lines_def path_exists_def io_return_def io_bind_def
        open_read_def filter_map comp_def)

lemma write_lines_render:
  "write_lines path lines w = (Inr (), w\<lparr>files := (files w)(path \<mapsto> render lines)\<rparr>)"
  by (simp add: write_lines_def render_def)

lemma read_all_stored:
  "read_all paths acc w = (Inr (acc @ concat (map (stored_lines (files w)) paths)), w)"
  by (induction paths arbitrary: acc) (simp_all add: io_return_def io_bind_def read_lines_stored)

lemma merge_histories_result:
  "merge_histories outputs merged_out w =
     (Inr (), w\<lparr>files := (files w)(merged_out \<mapsto>
        render (unique_preserve_order (concat (map (stored_lines (files w)) outputs))))\<rparr>)"
  by (simp add: merge_histories_def io_bind_def read_all_stored write_lines_render)

lemma stored_lines_trimmed:
  "list_all (\<lambda>line. line \<noteq> [] \<and> py_strip line = line) (stored_lines fs path)"
  by (cases "fs path") (auto simp: stored_lines_def list_all_iff py_strip_idem)

lemmas text_eval =
  lit_def LF_def CR_def py_strip_def py_isspace_def file_lines_def stored_lines_def render_def
  unique_preserve_order_def

text \<open>
  C5.  \<open>merge_histories\<close> raises nothing and changes nothing but the merged file, which
  it writes with the lines of the input files, read in the order of the list and
  concatenated, without the later duplicates; an absent input file has no lines.  The
  witness is the example of the specification with an absent file between A and B.
\<close>

theorem merge_histories_first_seen_order:
  "merge_histories outputs merged_out w =
     (Inr (), w\<lparr>files := (files w)(merged_out \<mapsto>
        render (unique_preserve_order (concat (map (stored_lines (files w)) outputs))))\<rparr>) \<and>
   (files w path = None \<longrightarrow>
      stored_lines (files w) path = [] \<and> read_lines path w = (Inr [], w))"
  by (simp add: merge_histories_result read_lines_stored) (simp add: stored_lines_def)

theorem merge_histories_first_seen_order_witness:
  "files \<lparr>files = [lit ''A'' \<mapsto> render [lit ''u1'', lit ''u2'', lit ''u1''],
                     lit ''B'' \<mapsto> render [lit ''u3'', lit ''u2'']],
          ext = (), events = []\<rparr> (lit ''absent'') = None \<and>
   merge_histories [lit ''A'', lit ''absent'', lit ''B''] (lit ''merged'')
     \<lparr>files = [lit ''A'' \<mapsto> render [lit ''u1'', lit ''u2'', lit ''u1''],
                lit ''B'' \<mapsto> render [lit ''u3'', lit ''u2'']],
      ext = (), events = []\<rparr>
   = (Inr (),
      \<lparr>files = [lit ''A'' \<mapsto> render [lit ''u1'', lit ''u2'', lit ''u1''],
                 lit ''B'' \<mapsto> render [lit ''u3'', lit ''u2''],
                 lit ''merged'' \<mapsto> render [lit ''u1'', lit ''u2'', lit ''u3'']],
       ext = (), events = []\<rparr>) \<and>
   stored_lines [lit ''merged'' \<mapsto> render [lit ''u1'', lit ''u2'', lit ''u3'']] (lit ''merged'')
   = [lit ''u1'', lit ''u2'', lit ''u3'']"
  using merge_histories_first_seen_order
    [of "[lit ''A'', lit ''absent'', lit ''B'']" "lit ''merged''"
        "\<lparr>files = [lit ''A'' \<mapsto> render [lit ''u1'', lit ''u2'', lit ''u1''],
                   lit ''B'' \<mapsto> render [lit ''u3'', lit ''u2'']],
          ext = (), events = []\<rparr>" "lit ''absent''"]
  by (simp add: text_eval)

text \<open>
  C6.  For a path that does not exist \<open>read_lines\<close> returns the empty list and raises
  nothing.  For a file it returns, in order, the lines of the file trimmed, without those
  that are empty after trimming; the lines of the file make up its text (after the
  newline translation of text mode).  Every line it returns is non-empty and trimmed.
  It leaves the world as it is.
\<close>

theorem read_lines_trimmed_nonempty_lines:
  "(files w path = None \<longrightarrow> read_lines path w = (Inr [], w)) \<and>
   (files w path = Some text \<longrightarrow>
      read_lines path w =
        (Inr (filter (\<lambda>line. line \<noteq> []) (map py_strip (file_lines text))), w) \<and>
      concat (file_lines text) = universal_newlines text) \<and>
   (fst (read_lines path w) = Inr ls \<longrightarrow> list_all (\<lambda>line. line \<noteq> [] \<and> py_strip line = line) ls)"
proof (intro conjI impI)
  assume "files w path = None"
  then show "read_lines path w = (Inr [], w)"
    by (simp add: read_lines_stored stored_lines_def)
next
  assume "files w path = Some text"
  then show "read_lines path w =
      (Inr (filter (\<lambda>line. line \<noteq> []) (map py_strip (file_lines text))), w)"
    by (simp add: read_lines_stored stored_lines_def)
next
  show "concat (file_lines text) = universal_newlines text"
    by (rule concat_file_lines)
next
  assume "fst (read_lines path w) = Inr ls"
  then have "ls = stored_lines (files w) path" by (simp add: read_lines_stored)
  then show "list_all (\<lambda>line. line \<noteq> [] \<and> py_strip line = line) ls"
    by (simp add: stored_lines_trimmed)
qed

theorem read_lines_trimmed_nonempty_lines_witness:
  "files \<lparr>files = [lit ''subs.txt'' \<mapsto> lit '' a.x.test '' @ [CR, LF, LF, 9] @ lit ''b.x.test''],
          ext = (), events = []\<rparr> (lit ''gone.txt'') = None \<and>
   read_lines (lit ''gone.txt'')
     \<lparr>files = [lit ''subs.txt'' \<mapsto> lit '' a.x.test '' @ [CR, LF, LF, 9] @ lit ''b.x.test''],
      ext = (), events = []\<rparr>
   = (Inr [],
      \<lparr>files = [lit ''subs.txt'' \<mapsto> lit '' a.x.test '' @ [CR, LF, LF, 9] @ lit ''b.x.test''],
       ext = (), events = []\<rparr>) \<and>
   read_lines (lit ''subs.txt'')
     \<lparr>files = [lit ''subs.txt'' \<mapsto> lit '' a.x.test '' @ [CR, LF, LF, 9] @ lit ''b.x.test''],
      ext = (), events = []\<rparr>
   = (Inr [lit ''a.x.test'', lit ''b.x.test''],
      \<lparr>files = [lit ''subs.txt'' \<mapsto> lit '' a.x.test '' @ [CR, LF, LF, 9] @ lit ''b.x.test''],
       ext = (), events = []\<rparr>) \<and>
   list_all (\<lambda>line. line \<noteq> [] \<and> py_strip line = line) [lit ''a.x.test'', lit ''b.x.test'']"
proof -
  let ?w = "\<lparr>files = [lit ''subs.txt'' \<mapsto> lit '' a.x.test '' @ [CR, LF, LF, 9] @ lit ''b.x.test''],
             ext = (), events = []\<rparr>"
  have gone: "files ?w (lit ''gone.txt'') = None"
    by (simp add: lit_def)
  have there: "files ?w (lit ''subs.txt'') =
      Some (lit '' a.x.test '' @ [CR, LF, LF, 9] @ lit ''b.x.test'')"
    by simp
  have ls: "filter (\<lambda>line. line \<noteq> [])
      (map py_strip (file_lines (lit '' a.x.test '' @ [CR, LF, LF, 9] @ lit ''b.x.test'')))
      = [lit ''a.x.test'', lit ''b.x.test'']"
    by (simp add: text_eval)
  from read_lines_trimmed_nonempty_lines [of ?w "lit ''gone.txt''"] gone
  have r1: "read_lines (lit ''gone.txt'') ?w = (Inr [], ?w)" by blast
  from read_lines_trimmed_nonempty_lines
    [of ?w "lit ''subs.txt''" "lit '' a.x.test '' @ [CR, LF, LF, 9] @ lit ''b.x.test''"] there ls
  have r2: "read_lines (lit ''subs.txt'') ?w = (Inr [lit ''a.x.test'', lit ''b.x.test''], ?w)"
    by simp
  from read_lines_trimmed_nonempty_lines
    [of ?w "lit ''subs.txt''" _ "[lit ''a.x.test'', lit ''b.x.test'']"] r2
  have "list_all (\<lambda>line. line \<noteq> [] \<and> py_strip line = line) [lit ''a.x.test'', lit ''b.x.test'']"
    by simp
  with gone r1 r2 show ?thesis by blast
qed

section \<open>Rules for the event log\<close>

lemma io_spec_return: "io_spec P G E (io_return x)"
  by (simp add: io_spec_def io_return_def)

lemma io_spec_raise: "io_spec P G E (io_raise e)"
  by (simp add: io_spec_def io_raise_def)

lemma io_spec_emit: "P ev \<Longrightarrow> G ev \<Longrightarrow> io_spec P G E (emit ev)"
  by (simp add: io_spec_def emit_def log_event_def)

lemma io_spec_log_info: "P (Stdout (msg @ [LF])) \<Longrightarrow> G (Stdout (msg @ [LF])) \<Longrightarrow> io_spec P G E (log_info msg)"
  by (simp add: log_info_def io_spec_emit)

lemma io_spec_bind:
  assumes m: "io_spec P G E m" and f: "\<And>x. io_spec P G E (f x)"
  shows "io_spec P G E (io_bind m f)"
  unfolding io_spec_def
proof
  fix w
  from m obtain evs1 where e1: "events (snd (m w)) = events w @ evs1" and p1: "list_all P evs1"
    and g1: "list_all G evs1 \<or> fst (m w) = Inl E"
    unfolding io_spec_def by blast
  show "\<exists>evs. events (snd (io_bind m f w)) = events w @ evs \<and> list_all P evs \<and>
          (list_all G evs \<or> fst (io_bind m f w) = Inl E)"
  proof (cases "fst (m w)")
    case (Inl e)
    then have "io_bind m f w = (Inl e, snd (m w))"
      by (cases "m w") (simp add: io_bind_def)
    with e1 p1 g1 Inl show ?thesis by auto
  next
    case (Inr x)
    then have b: "io_bind m f w = f x (snd (m w))"
      by (cases "m w") (simp add: io_bind_def)
    from f [of x] obtain evs2 where
      e2: "events (snd (f x (snd (m w)))) = events (snd (m w)) @ evs2" and p2: "list_all P evs2"
      and g2: "list_all G evs2 \<or> fst (f x (snd (m w))) = Inl E"
      unfolding io_spec_def by blast
    from g1 Inr have "list_all G evs1" by simp
    with e1 e2 p1 p2 g2 b have
      "events (snd (io_bind m f w)) = events w @ (evs1 @ evs2) \<and> list_all P (evs1 @ evs2) \<and>
       (list_all G (evs1 @ evs2) \<or> fst (io_bind m f w) = Inl E)"
      by auto
    then show ?thesis by blast
  qed
qed

lemma io_spec_if:
  "(c \<Longrightarrow> io_spec P G E a) \<Longrightarrow> (\<not> c \<Longrightarrow> io_spec P G E b) \<Longrightarrow> io_spec P G E (if c then a else b)"
  by simp

lemma io_spec_case_prod:
  "(\<And>a b. io_spec P G E (f a b)) \<Longrightarrow> io_spec P G E (case_prod f x)"
  by (cases x) simp

lemma io_spec_read_lines: "io_spec P G E (read_lines path)"
  by (simp add: io_spec_def read_lines_stored)

lemma io_spec_write_lines: "io_spec P G E (write_lines path lines)"
  by (simp add: io_spec_def write_lines_def)

lemma io_spec_remove_if_exists: "io_spec P G E (remove_if_exists path)"
  by (simp add: io_spec_def remove_if_exists_def)

lemma run_command_result:
  assumes "tool env args input_text (open_for_output (files w) output_file appending) (ext w)
           = (res, fs2, e2)"
  shows "run_command env args input_text output_file appending verbose w =
       (Inr \<lparr>returncode = t_returncode res,
             stdout = (case output_file of None \<Rightarrow> Some (t_stdout res) | Some _ \<Rightarrow> None)\<rparr>,
        w\<lparr>files := redirect_output fs2 output_file (t_stdout res), ext := e2,
          events := events w @
           (if verbose then [Stderr (lit ''[cmd] '' @ py_join (lit '' '') args @ [LF])] else []) @
           [Exec \<lparr>c_args = args, c_input = input_text, c_output_file = output_file,
                   c_append = appending\<rparr> (t_returncode res)] @
           (if verbose \<and> t_stderr res \<noteq> [] then [Stderr (t_stderr res)] else [])\<rparr>)"
  using assms by (simp add: run_command_def Let_def log_event_def)

lemma io_spec_run_checked:
  assumes exec: "\<And>rc. P (Exec \<lparr>c_args = args, c_input = input_text, c_output_file = output_file,
                                 c_append = appending\<rparr> rc)"
    and err: "\<And>s. P (Stderr s) \<and> G (Stderr s)"
    and ok: "G (Exec \<lparr>c_args = args, c_input = input_text, c_output_file = output_file,
                       c_append = appending\<rparr> 0)"
    and bad: "(\<forall>rc. G (Exec \<lparr>c_args = args, c_input = input_text, c_output_file = output_file,
                               c_append = appending\<rparr> rc)) \<or> E' = E"
    and k: "\<And>proc. io_spec P G E (k proc)"
  shows "io_spec P G E
           (io_bind (run_command (env :: 'e env) args input_text output_file appending verbose)
              (\<lambda>proc. if returncode proc \<noteq> 0 then io_raise E' else k proc))"
  unfolding io_spec_def
proof
  fix w :: "'e world"
  let ?call = "\<lparr>c_args = args, c_input = input_text, c_output_file = output_file,
                 c_append = appending\<rparr>"
  let ?m = "io_bind (run_command env args input_text output_file appending verbose)
              (\<lambda>proc. if returncode proc \<noteq> 0 then io_raise E' else k proc)"
  obtain res fs2 e2 where
    t: "tool env args input_text (open_for_output (files w) output_file appending) (ext w)
        = (res, fs2, e2)"
    by (cases "tool env args input_text (open_for_output (files w) output_file appending) (ext w)")
       auto
  note run = run_command_result [OF t, of verbose]
  let ?evs1 = "(if verbose then [Stderr (lit ''[cmd] '' @ py_join (lit '' '') args @ [LF])] else []) @
           [Exec ?call (t_returncode res)] @
           (if verbose \<and> t_stderr res \<noteq> [] then [Stderr (t_stderr res)] else [])"
  let ?w1 = "w\<lparr>files := redirect_output fs2 output_file (t_stdout res), ext := e2,
               events := events w @ ?evs1\<rparr>"
  let ?proc = "\<lparr>returncode = t_returncode res,
             stdout = (case output_file of None \<Rightarrow> Some (t_stdout res) | Some _ \<Rightarrow> None)\<rparr>"
  have p1: "list_all P ?evs1" using exec err by simp
  show "\<exists>evs. events (snd (?m w)) = events w @ evs \<and> list_all P evs \<and>
          (list_all G evs \<or> fst (?m w) = Inl E)"
  proof (cases "t_returncode res = 0")
    case True
    then have m: "?m w = k ?proc ?w1" by (simp add: io_bind_def run)
    from True ok err have g1: "list_all G ?evs1" by simp
    from k [of ?proc] obtain evs2 where
      e2: "events (snd (k ?proc ?w1)) = events ?w1 @ evs2" and p2: "list_all P evs2"
      and g2: "list_all G evs2 \<or> fst (k ?proc ?w1) = Inl E"
      unfolding io_spec_def by blast
    from e2 p1 p2 g1 g2 m have
      "events (snd (?m w)) = events w @ (?evs1 @ evs2) \<and> list_all P (?evs1 @ evs2) \<and>
       (list_all G (?evs1 @ evs2) \<or> fst (?m w) = Inl E)"
      by auto
    then show ?thesis by blast
  next
    case False
    then have m: "?m w = (Inl E', ?w1)" by (simp add: io_bind_def run io_raise_def)
    from bad err have "list_all G ?evs1 \<or> E' = E" by auto
    with m p1 have
      "events (snd (?m w)) = events w @ ?evs1 \<and> list_all P ?evs1 \<and>
       (list_all G ?evs1 \<or> fst (?m w) = Inl E)"
      by auto
    then show ?thesis by blast
  qed
qed

lemma io_spec_new_events:
  assumes "io_spec P G E m"
  shows "list_all P (new_events w (snd (m w))) \<and>
         (list_all G (new_events w (snd (m w))) \<or> fst (m w) = Inl E)"
proof -
  from assms obtain evs where "events (snd (m w)) = events w @ evs" and "list_all P evs"
    and "list_all G evs \<or> fst (m w) = Inl E"
    unfolding io_spec_def by blast
  then show ?thesis by (simp add: new_events_def)
qed

section \<open>Properties of the batching sites\<close>

lemma chunked_whole: "chunked_from seq (length seq) 0 = (if seq = [] then [] else [seq])"
  by (subst chunked_from.simps, subst chunked_from.simps) (simp add: slice_def)

lemma chunked_unlimited: "rate_limit \<le> 0 \<Longrightarrow> chunked seq (batch_size rate_limit seq) = [seq]"
  by (cases "seq = []") (simp_all add: chunked_def batch_size_def chunked_whole)

lemma httpx_batches_negative:
  "rate_limit < 0 \<Longrightarrow>
   httpx_batches env subs_out rate_limit verbose idx batches =
   httpx_batches env subs_out 0 verbose idx batches"
  by (induction batches arbitrary: idx) (simp_all cong: if_cong)

lemma gau_batches_negative:
  "rate_limit < 0 \<Longrightarrow>
   gau_batches env out_file rate_limit verbose n i batches =
   gau_batches env out_file 0 verbose n i batches"
  by (induction batches arbitrary: i) (simp_all cong: if_cong)

lemma uro_batches_negative:
  "rate_limit < 0 \<Longrightarrow>
   uro_batches env rate_limit verbose acc batches = uro_batches env 0 verbose acc batches"
  by (induction batches arbitrary: acc) (simp_all cong: if_cong)

lemma probe_batches_negative:
  "rate_limit < 0 \<Longrightarrow>
   probe_batches env rate_limit verbose acc batches = probe_batches env 0 verbose acc batches"
  by (induction batches arbitrary: acc) (simp_all cong: if_cong)

lemma batch_size_negative: "rate_limit < 0 \<Longrightarrow> batch_size rate_limit seq = batch_size 0 seq"
  by (simp add: batch_size_def)

lemma subfinder_to_httpx_unlimited:
  assumes "rate_limit \<le> 0"
  shows "subfinder_to_httpx env domain subs_out rate_limit verbose =
         subfinder_to_httpx env domain subs_out 0 verbose"
proof (cases "rate_limit = 0")
  case True
  then show ?thesis by simp
next
  case False
  with assms have "rate_limit < 0" by simp
  then show ?thesis
    by (simp add: subfinder_to_httpx_def httpx_batches_negative batch_size_negative Let_def
          cong: if_cong)
qed

lemma run_gau_unlimited:
  assumes "rate_limit \<le> 0"
  shows "run_gau env subs_in out_file rate_limit verbose = run_gau env subs_in out_file 0 verbose"
proof (cases "rate_limit = 0")
  case True
  then show ?thesis by simp
next
  case False
  with assms have "rate_limit < 0" by simp
  then show ?thesis
    by (simp add: run_gau_def gau_batches_negative batch_size_negative Let_def cong: if_cong)
qed

lemma filter_with_gf_uro_httpx_unlimited:
  assumes "rate_limit \<le> 0"
  shows "filter_with_gf_uro_httpx env merged_in final_out rate_limit verbose =
         filter_with_gf_uro_httpx env merged_in final_out 0 verbose"
proof (cases "rate_limit = 0")
  case True
  then show ?thesis by simp
next
  case False
  with assms have "rate_limit < 0" by simp
  then show ?thesis
    by (simp add: filter_with_gf_uro_httpx_def normalize_and_probe_def uro_batches_negative
          probe_batches_negative
          batch_size_negative Let_def cong: if_cong)
qed

lemma main_unlimited:
  assumes "rate_limit \<le> 0"
  shows "main env (a\<lparr>arg_rate_limit := rate_limit\<rparr>) = main env (a\<lparr>arg_rate_limit := 0\<rparr>)"
proof -
  have "subfinder_to_httpx env d subs_file (if rate_limit \<noteq> 0 then rate_limit else 0) v =
        subfinder_to_httpx env d subs_file 0 v" for d v
    by (simp add: subfinder_to_httpx_unlimited [OF assms])
  moreover have "after_discovery env m (if rate_limit \<noteq> 0 then rate_limit else 0) v =
        after_discovery env m 0 v" for m v
    by (intro ext)
       (simp add: after_discovery_def history_stages_def merge_filter_scan_def
          run_gau_unlimited [OF assms] filter_with_gf_uro_httpx_unlimited [OF assms])
  ultimately show ?thesis
    by (simp add: main_def Let_def cong: if_cong)
qed

lemma no_sleep_httpx_batches:
  "rate_limit \<le> 0 \<Longrightarrow>
   io_spec (\<lambda>ev. \<not> is_sleep ev) (\<lambda>ev. True) E
     (httpx_batches env subs_out rate_limit verbose idx batches)"
proof (induction batches arbitrary: idx)
  case Nil
  show ?case by (simp add: io_spec_return)
next
  case (Cons batch rest)
  from Cons.prems have nosleep: "\<not> 0 < rate_limit" by simp
  show ?case
    unfolding httpx_batches.simps
    by (rule io_spec_run_checked)
       (simp_all add: nosleep Cons.IH [OF Cons.prems] io_spec_bind io_spec_return)
qed

lemma no_sleep_gau_batches:
  "rate_limit \<le> 0 \<Longrightarrow>
   io_spec (\<lambda>ev. \<not> is_sleep ev) (\<lambda>ev. True) E
     (gau_batches env out_file rate_limit verbose n i batches)"
proof (induction batches arbitrary: i)
  case Nil
  show ?case by (simp add: io_spec_return)
next
  case (Cons batch rest)
  from Cons.prems have nosleep: "\<not> 0 < rate_limit" by simp
  show ?case
    unfolding gau_batches.simps
    by (rule io_spec_run_checked)
       (simp_all add: nosleep Cons.IH [OF Cons.prems] io_spec_bind io_spec_return)
qed

lemma no_sleep_uro_batches:
  "rate_limit \<le> 0 \<Longrightarrow>
   io_spec (\<lambda>ev. \<not> is_sleep ev) (\<lambda>ev. True) E
     (uro_batches env rate_limit verbose acc batches)"
proof (induction batches arbitrary: acc)
  case Nil
  show ?case by (simp add: io_spec_return)
next
  case (Cons batch rest)
  from Cons.prems have nosleep: "\<not> 0 < rate_limit" by simp
  show ?case
    unfolding uro_batches.simps
    by (rule io_spec_run_checked)
       (simp_all add: nosleep Cons.IH [OF Cons.prems] io_spec_bind io_spec_return)
qed

lemma no_sleep_probe_batches:
  "rate_limit \<le> 0 \<Longrightarrow>
   io_spec (\<lambda>ev. \<not> is_sleep ev) (\<lambda>ev. True) E
     (probe_batches env rate_limit verbose acc batches)"
proof (induction batches arbitrary: acc)
  case Nil
  show ?case by (simp add: io_spec_return)
next
  case (Cons batch rest)
  from Cons.prems have nosleep: "\<not> 0 < rate_limit" by simp
  show ?case
    unfolding probe_batches.simps
    by (rule io_spec_run_checked)
       (simp_all add: nosleep Cons.IH [OF Cons.prems] io_spec_bind io_spec_return)
qed

lemmas io_spec_steps =
  io_spec_bind io_spec_return io_spec_raise io_spec_read_lines io_spec_write_lines
  io_spec_remove_if_exists io_spec_if io_spec_case_prod

lemma no_sleep_subfinder_to_httpx:
  assumes "rate_limit \<le> 0"
  shows "io_spec (\<lambda>ev. \<not> is_sleep ev) (\<lambda>ev. True) E
     (subfinder_to_httpx env domain subs_out rate_limit verbose)"
  unfolding subfinder_to_httpx_def Let_def
  apply (rule io_spec_run_checked)
      apply simp
     apply simp
    apply simp
   apply simp
  apply (intro io_spec_steps no_sleep_httpx_batches assms)
  done

lemma no_sleep_run_gau:
  assumes "rate_limit \<le> 0"
  shows "io_spec (\<lambda>ev. \<not> is_sleep ev) (\<lambda>ev. True) E
     (run_gau env subs_in out_file rate_limit verbose)"
  unfolding run_gau_def Let_def
  by (intro io_spec_steps no_sleep_gau_batches assms)

lemma no_sleep_filter_with_gf_uro_httpx:
  assumes "rate_limit \<le> 0"
  shows "io_spec (\<lambda>ev. \<not> is_sleep ev) (\<lambda>ev. True) E
     (filter_with_gf_uro_httpx env merged_in final_out rate_limit verbose)"
  unfolding filter_with_gf_uro_httpx_def normalize_and_probe_def Let_def
  apply (rule io_spec_bind [OF io_spec_read_lines])
  apply (rule io_spec_if)
   apply (intro io_spec_steps)
  apply (rule io_spec_run_checked)
      apply simp
     apply simp
    apply simp
   apply simp
  apply (intro io_spec_steps no_sleep_uro_batches no_sleep_probe_batches assms)
  done

section \<open>Properties of the stages and the driver\<close>

lemmas run_eval =
  io_bind_def io_return_def io_raise_def run_command_def scripted_env_def example_script_def
  empty_world_def Let_def log_event_def emit_def sleep_ms_def log_info_def print_banner_def
  open_for_output_def redirect_output_def stdout_lines_def py_splitlines_def py_islinebreak_def
  py_strip_def py_isspace_def lit_def LF_def CR_def write_lines_def remove_if_exists_def
  path_exists_def batch_size_def chunked_def chunked_from.simps slice_def batch_input_def
  read_lines_def open_read_def file_lines_def new_events_def subs_file_def

text \<open>
  C8.  \<open>ensure_tools_exist\<close> returns success exactly when its list of missing names is
  empty, and this list holds the names \<open>shutil.which\<close> does not resolve, in the order
  given.  When a tool required for the mode is not resolved, \<open>main\<close> exits with code 1;
  after the banner it has written only the two lines to standard error, the first with all
  the missing names, and it has run no process, written no file and not slept.
\<close>

theorem missing_tools_exit_before_any_stage:
  "(fst (ensure_tools_exist env tools) \<longleftrightarrow> snd (ensure_tools_exist env tools) = []) \<and>
   snd (ensure_tools_exist env tools) = filter (\<lambda>t. which env t = None) tools \<and>
   (list_ex (\<lambda>t. which env t = None) (required_tools (arg_mode a)) \<longrightarrow>
      main env a w =
        (Inl (SystemExit 1),
         w\<lparr>events := events w @
            [Stdout (banner env @ [LF]),
             Stderr (lit ''Missing required tools: '' @
                     py_join (lit '', '')
                       (filter (\<lambda>t. which env t = None) (required_tools (arg_mode a))) @ [LF]),
             Stderr (lit ''Please install them and ensure they are in PATH.'' @ [LF])]\<rparr>))"
proof (intro conjI impI)
  show "fst (ensure_tools_exist env tools) \<longleftrightarrow> snd (ensure_tools_exist env tools) = []"
    by (simp add: ensure_tools_exist_def Let_def)
  show "snd (ensure_tools_exist env tools) = filter (\<lambda>t. which env t = None) tools"
    by (simp add: ensure_tools_exist_def Let_def)
  assume "list_ex (\<lambda>t. which env t = None) (required_tools (arg_mode a))"
  then have "filter (\<lambda>t. which env t = None) (required_tools (arg_mode a)) \<noteq> []"
    by (simp add: list_ex_iff filter_empty_conv)
  then show "main env a w =
        (Inl (SystemExit 1),
         w\<lparr>events := events w @
            [Stdout (banner env @ [LF]),
             Stderr (lit ''Missing required tools: '' @
                     py_join (lit '', '')
                       (filter (\<lambda>t. which env t = None) (required_tools (arg_mode a))) @ [LF]),
             Stderr (lit ''Please install them and ensure they are in PATH.'' @ [LF])]\<rparr>)"
    by (simp add: main_def ensure_tools_exist_def Let_def io_bind_def print_banner_def emit_def
          log_event_def io_raise_def)
qed

theorem missing_tools_exit_before_any_stage_witness:
  "list_ex (\<lambda>t. (if t = lit ''gf'' \<or> t = lit ''gau'' then None else Some t) = None)
     (required_tools All_sources) \<and>
   main (scripted_env (\<lambda>t. if t = lit ''gf'' \<or> t = lit ''gau'' then None else Some t)
           (example_script 0 [] 0))
     \<lparr>arg_domain = lit ''example.com'', arg_mode = All_sources, arg_rate_limit = 0,
      arg_verbose = False\<rparr> empty_world
   = (Inl (SystemExit 1),
      \<lparr>files = Map.empty, ext = (),
       events = [Stdout (lit ''crawlexsses'' @ [LF]),
                 Stderr (lit ''Missing required tools: gf, gau'' @ [LF]),
                 Stderr (lit ''Please install them and ensure they are in PATH.'' @ [LF])]\<rparr>)"
proof -
  let ?wh = "\<lambda>t. if t = lit ''gf'' \<or> t = lit ''gau'' then None else Some t"
  let ?env = "scripted_env ?wh (example_script 0 [] 0)"
  let ?a = "\<lparr>arg_domain = lit ''example.com'', arg_mode = All_sources, arg_rate_limit = 0,
      arg_verbose = False\<rparr>"
  have missing: "list_ex (\<lambda>t. ?wh t = None) (required_tools All_sources)"
    by (simp add: required_tools_def lit_def)
  then have "list_ex (\<lambda>t. which ?env t = None) (required_tools (arg_mode ?a))"
    by (simp add: scripted_env_def)
  with missing_tools_exit_before_any_stage [of ?env _ ?a empty_world]
  have "main ?env ?a empty_world =
        (Inl (SystemExit 1),
         empty_world\<lparr>events := events empty_world @
            [Stdout (banner ?env @ [LF]),
             Stderr (lit ''Missing required tools: '' @
                     py_join (lit '', '')
                       (filter (\<lambda>t. which ?env t = None) (required_tools (arg_mode ?a))) @ [LF]),
             Stderr (lit ''Please install them and ensure they are in PATH.'' @ [LF])]\<rparr>)"
    by blast
  moreover have "py_join (lit '', '')
      (filter (\<lambda>t. which ?env t = None) (required_tools (arg_mode ?a))) = lit ''gf, gau''"
    by (simp add: scripted_env_def required_tools_def lit_def)
  moreover have "lit ''Missing required tools: '' @ lit ''gf, gau'' = lit ''Missing required tools: gf, gau''"
    by (simp add: lit_def)
  ultimately show ?thesis
    using missing by (simp add: empty_world_def scripted_env_def)
qed

text \<open>
  C9, as stated, fails where the enumerator exits with a non-zero status and no output:
  the guard on the exit status comes first, \<open>subfinder_to_httpx\<close> raises
  \<open>RuntimeError("subfinder failed")\<close>, returns no counts and writes no file.
\<close>

theorem failed_enumeration_raises_counterexample:
  "t_stdout (example_script 1 [] 0 (lit ''subfinder'')) = [] \<and>
   subfinder_to_httpx (scripted_env Some (example_script 1 [] 0)) (lit ''x.test'') subs_file 0
     False empty_world
   = (Inl (RuntimeError (lit ''subfinder failed'')),
      \<lparr>files = Map.empty, ext = (),
       events = [Exec \<lparr>c_args = [lit ''subfinder'', lit ''-d'', lit ''x.test'', lit ''-all'',
                                 lit ''-silent''],
                       c_input = None, c_output_file = None, c_append = False\<rparr> 1]\<rparr>) \<and>
   fst (subfinder_to_httpx (scripted_env Some (example_script 1 [] 0)) (lit ''x.test'') subs_file 0
     False empty_world) \<noteq> Inr (0, 0)"
  by (simp add: subfinder_to_httpx_def run_eval)

text \<open>
  C9, amended.  If the subdomain enumerator exits with status 0 and every line of its
  output is empty after trimming, \<open>subfinder_to_httpx\<close> returns \<open>(0, 0)\<close>, writes the empty
  subdomains file and has run one process only, the enumerator: the liveness prober is
  not invoked, whatever the rate limit.
\<close>

theorem empty_enumeration_skips_probe:
  "tool env [lit ''subfinder'', lit ''-d'', domain, lit ''-all'', lit ''-silent''] None (files w) (ext w)
     = (res, fs', e') \<and>
   t_returncode res = 0 \<and>
   list_all (\<lambda>line. py_strip line = []) (py_splitlines (t_stdout res)) \<longrightarrow>
   subfinder_to_httpx env domain subs_out rate_limit verbose w =
     (Inr (0, 0),
      w\<lparr>files := fs'(subs_out \<mapsto> []), ext := e',
        events := events w @
          (if verbose
           then [Stderr (lit ''[cmd] '' @
                   py_join (lit '' '')
                     [lit ''subfinder'', lit ''-d'', domain, lit ''-all'', lit ''-silent''] @ [LF])]
           else []) @
          [Exec \<lparr>c_args = [lit ''subfinder'', lit ''-d'', domain, lit ''-all'', lit ''-silent''],
                  c_input = None, c_output_file = None, c_append = False\<rparr> 0] @
          (if verbose \<and> t_stderr res \<noteq> [] then [Stderr (t_stderr res)] else [])\<rparr>)"
proof
  assume h: "tool env [lit ''subfinder'', lit ''-d'', domain, lit ''-all'', lit ''-silent''] None
       (files w) (ext w) = (res, fs', e') \<and>
     t_returncode res = 0 \<and>
     list_all (\<lambda>line. py_strip line = []) (py_splitlines (t_stdout res))"
  then have t: "tool env [lit ''subfinder'', lit ''-d'', domain, lit ''-all'', lit ''-silent''] None
       (open_for_output (files w) None False) (ext w) = (res, fs', e')"
    by (simp add: open_for_output_def)
  from h have none: "filter (\<lambda>s. py_strip s \<noteq> []) (py_splitlines (t_stdout res)) = []"
    by (simp add: filter_empty_conv list_all_iff)
  show "subfinder_to_httpx env domain subs_out rate_limit verbose w =
     (Inr (0, 0),
      w\<lparr>files := fs'(subs_out \<mapsto> []), ext := e',
        events := events w @
          (if verbose
           then [Stderr (lit ''[cmd] '' @
                   py_join (lit '' '')
                     [lit ''subfinder'', lit ''-d'', domain, lit ''-all'', lit ''-silent''] @ [LF])]
           else []) @
          [Exec \<lparr>c_args = [lit ''subfinder'', lit ''-d'', domain, lit ''-all'', lit ''-silent''],
                  c_input = None, c_output_file = None, c_append = False\<rparr> 0] @
          (if verbose \<and> t_stderr res \<noteq> [] then [Stderr (t_stderr res)] else [])\<rparr>)"
    using h none
    by (simp add: subfinder_to_httpx_def io_bind_def run_command_result [OF t] stdout_lines_def
          redirect_output_def write_lines_def io_return_def Let_def)
qed

theorem empty_enumeration_skips_probe_witness:
  "t_returncode (example_script 0 (lit '' '' @ [LF, LF]) 0 (lit ''subfinder'')) = 0 \<and>
   list_all (\<lambda>line. py_strip line = [])
     (py_splitlines (t_stdout (example_script 0 (lit '' '' @ [LF, LF]) 0 (lit ''subfinder'')))) \<and>
   subfinder_to_httpx (scripted_env Some (example_script 0 (lit '' '' @ [LF, LF]) 0))
     (lit ''x.test'') subs_file 5 False empty_world
   = (Inr (0, 0),
      \<lparr>files = [subs_file \<mapsto> []], ext = (),
       events = [Exec \<lparr>c_args = [lit ''subfinder'', lit ''-d'', lit ''x.test'', lit ''-all'',
                                 lit ''-silent''],
                       c_input = None, c_output_file = None, c_append = False\<rparr> 0]\<rparr>)"
proof -
  let ?res = "example_script 0 (lit '' '' @ [LF, LF]) 0 (lit ''subfinder'')"
  let ?env = "scripted_env Some (example_script 0 (lit '' '' @ [LF, LF]) 0)"
  have t: "tool ?env [lit ''subfinder'', lit ''-d'', lit ''x.test'', lit ''-all'', lit ''-silent''] None
      (files empty_world) (ext empty_world) = (?res, Map.empty, ())"
    by (simp add: scripted_env_def empty_world_def)
  have rc: "t_returncode ?res = 0"
    by (simp add: example_script_def)
  have blank: "list_all (\<lambda>line. py_strip line = []) (py_splitlines (t_stdout ?res))"
    by (simp add: example_script_def py_splitlines_def py_islinebreak_def py_strip_def
          py_isspace_def lit_def LF_def CR_def)
  have err: "t_stderr ?res = []"
    by (simp add: example_script_def)
  from empty_enumeration_skips_probe
    [of ?env "lit ''x.test''" empty_world ?res Map.empty "()" subs_file 5 False] t rc blank
  have "subfinder_to_httpx ?env (lit ''x.test'') subs_file 5 False empty_world =
     (Inr (0, 0),
      empty_world\<lparr>files := Map.empty(subs_file \<mapsto> []), ext := (),
        events := events empty_world @ [] @
          [Exec \<lparr>c_args = [lit ''subfinder'', lit ''-d'', lit ''x.test'', lit ''-all'',
                           lit ''-silent''],
                  c_input = None, c_output_file = None, c_append = False\<rparr> 0] @ []\<rparr>)"
    using err by simp
  then show ?thesis using rc blank by (simp add: empty_world_def)
qed


lemma io_spec_weaken:
  assumes "io_spec P (\<lambda>ev. True) E' m" and "\<And>ev. P ev \<Longrightarrow> P' ev \<and> G' ev"
  shows "io_spec P' G' E m"
  unfolding io_spec_def
proof
  fix w
  from assms(1) obtain evs where e: "events (snd (m w)) = events w @ evs" and p: "list_all P evs"
    unfolding io_spec_def by blast
  from p assms(2) have "list_all P' evs \<and> list_all G' evs" by (auto simp: list_all_iff)
  with e show "\<exists>evs. events (snd (m w)) = events w @ evs \<and> list_all P' evs \<and>
      (list_all G' evs \<or> fst (m w) = Inl E)"
    by blast
qed

lemma fail_stop_good:
  assumes "io_spec G (\<lambda>ev. True) E' m"
  shows "fail_stop P G E m"
  using assms unfolding io_spec_def fail_stop_def by blast

lemma fail_stop_bind_spec:
  assumes m: "io_spec P G E m" and f: "\<And>x. io_spec G (\<lambda>ev. True) E' (f x)"
  shows "fail_stop P G E (io_bind m f)"
  unfolding fail_stop_def
proof
  fix w
  from m obtain evs1 where e1: "events (snd (m w)) = events w @ evs1" and p1: "list_all P evs1"
    and g1: "list_all G evs1 \<or> fst (m w) = Inl E"
    unfolding io_spec_def by blast
  show "\<exists>evs. events (snd (io_bind m f w)) = events w @ evs \<and>
          (list_all G evs \<or> (fst (io_bind m f w) = Inl E \<and> list_all P evs))"
  proof (cases "fst (m w)")
    case (Inl e)
    then have "io_bind m f w = (Inl e, snd (m w))"
      by (cases "m w") (simp add: io_bind_def)
    with e1 p1 g1 Inl show ?thesis by auto
  next
    case (Inr x)
    then have b: "io_bind m f w = f x (snd (m w))"
      by (cases "m w") (simp add: io_bind_def)
    from f [of x] obtain evs2 where
      e2: "events (snd (f x (snd (m w)))) = events (snd (m w)) @ evs2" and g2: "list_all G evs2"
      unfolding io_spec_def by blast
    from g1 Inr have "list_all G evs1" by simp
    with e1 e2 g2 b have
      "events (snd (io_bind m f w)) = events w @ (evs1 @ evs2) \<and> list_all G (evs1 @ evs2)"
      by auto
    then show ?thesis by blast
  qed
qed

lemma fail_stop_prefix:
  assumes m: "io_spec (\<lambda>ev. P ev \<and> G ev) (\<lambda>ev. True) E' m" and f: "\<And>x. fail_stop P G E (f x)"
  shows "fail_stop P G E (io_bind m f)"
  unfolding fail_stop_def
proof
  fix w
  from m obtain evs1 where e1: "events (snd (m w)) = events w @ evs1"
    and pg1: "list_all (\<lambda>ev. P ev \<and> G ev) evs1"
    unfolding io_spec_def by blast
  from pg1 have p1: "list_all P evs1" and g1: "list_all G evs1" by (auto simp: list_all_iff)
  show "\<exists>evs. events (snd (io_bind m f w)) = events w @ evs \<and>
          (list_all G evs \<or> (fst (io_bind m f w) = Inl E \<and> list_all P evs))"
  proof (cases "fst (m w)")
    case (Inl e)
    then have "io_bind m f w = (Inl e, snd (m w))"
      by (cases "m w") (simp add: io_bind_def)
    with e1 g1 show ?thesis by auto
  next
    case (Inr x)
    then have b: "io_bind m f w = f x (snd (m w))"
      by (cases "m w") (simp add: io_bind_def)
    from f [of x] obtain evs2 where
      e2: "events (snd (f x (snd (m w)))) = events (snd (m w)) @ evs2"
      and g2: "list_all G evs2 \<or> (fst (f x (snd (m w))) = Inl E \<and> list_all P evs2)"
      unfolding fail_stop_def by blast
    with e1 p1 g1 b have
      "events (snd (io_bind m f w)) = events w @ (evs1 @ evs2) \<and>
       (list_all G (evs1 @ evs2) \<or> (fst (io_bind m f w) = Inl E \<and> list_all P (evs1 @ evs2)))"
      by auto
    then show ?thesis by blast
  qed
qed

lemma fail_stop_if:
  "(c \<Longrightarrow> fail_stop P G E a) \<Longrightarrow> (\<not> c \<Longrightarrow> fail_stop P G E b) \<Longrightarrow>
   fail_stop P G E (if c then a else b)"
  by simp

lemma fail_stop_case_prod:
  "(\<And>a b. fail_stop P G E (f a b)) \<Longrightarrow> fail_stop P G E (case_prod f x)"
  by (cases x) simp

lemma io_spec_sleep_ms: "P (Sleep ms) \<Longrightarrow> G (Sleep ms) \<Longrightarrow> io_spec P G E (sleep_ms ms)"
  by (simp add: sleep_ms_def io_spec_emit)

lemma probe_httpx_batches:
  "io_spec (\<lambda>ev. \<not> history_exec ev) (\<lambda>ev. \<not> discovery_probe_failed ev)
     (RuntimeError (lit ''httpx failed while probing subdomains''))
     (httpx_batches env subs_out rate_limit verbose idx batches)"
proof (induction batches arbitrary: idx)
  case Nil
  show ?case by (simp add: io_spec_return)
next
  case (Cons batch rest)
  show ?case
    unfolding httpx_batches.simps
    apply (rule io_spec_run_checked)
        apply (simp add: lit_def)
       apply simp
      apply simp
     apply simp
    apply (intro io_spec_steps io_spec_sleep_ms Cons.IH)
     apply simp_all
    done
qed

lemma probe_subfinder_to_httpx:
  "io_spec (\<lambda>ev. \<not> history_exec ev) (\<lambda>ev. \<not> discovery_probe_failed ev)
     (RuntimeError (lit ''httpx failed while probing subdomains''))
     (subfinder_to_httpx env domain subs_out rate_limit verbose)"
  unfolding subfinder_to_httpx_def Let_def
  apply (rule io_spec_run_checked)
      apply (simp add: lit_def)
     apply simp
    apply simp
   apply (simp add: lit_def)
  apply (intro io_spec_steps probe_httpx_batches)
  done

lemma io_spec_run_unredirected:
  assumes k: "\<And>proc. io_spec (\<lambda>ev. \<not> discovery_probe_failed ev) (\<lambda>ev. True) E (k proc)"
  shows "io_spec (\<lambda>ev. \<not> discovery_probe_failed ev) (\<lambda>ev. True) E
           (io_bind (run_command env args input_text None False verbose)
              (\<lambda>proc. if returncode proc \<noteq> 0 then io_raise E' else k proc))"
  by (rule io_spec_run_checked) (simp_all add: k)

lemma unredirected_gau_batches:
  "io_spec (\<lambda>ev. \<not> discovery_probe_failed ev) (\<lambda>ev. True) E
     (gau_batches env out_file rate_limit verbose n i batches)"
proof (induction batches arbitrary: i)
  case Nil
  show ?case by (simp add: io_spec_return)
next
  case (Cons batch rest)
  show ?case
    unfolding gau_batches.simps
    by (intro io_spec_run_unredirected io_spec_steps io_spec_sleep_ms Cons.IH) simp_all
qed

lemma unredirected_uro_batches:
  "io_spec (\<lambda>ev. \<not> discovery_probe_failed ev) (\<lambda>ev. True) E
     (uro_batches env rate_limit verbose acc batches)"
proof (induction batches arbitrary: acc)
  case Nil
  show ?case by (simp add: io_spec_return)
next
  case (Cons batch rest)
  show ?case
    unfolding uro_batches.simps
    by (intro io_spec_run_unredirected io_spec_steps io_spec_sleep_ms Cons.IH) simp_all
qed

lemma unredirected_probe_batches:
  "io_spec (\<lambda>ev. \<not> discovery_probe_failed ev) (\<lambda>ev. True) E
     (probe_batches env rate_limit verbose acc batches)"
proof (induction batches arbitrary: acc)
  case Nil
  show ?case by (simp add: io_spec_return)
next
  case (Cons batch rest)
  show ?case
    unfolding probe_batches.simps
    by (intro io_spec_run_unredirected io_spec_steps io_spec_sleep_ms Cons.IH) simp_all
qed

lemma io_spec_read_all: "io_spec P G E (read_all paths acc)"
  by (simp add: io_spec_def read_all_stored)

lemma io_spec_merge_histories: "io_spec P G E (merge_histories outputs merged_out)"
  by (simp add: io_spec_def merge_histories_result)

lemma io_spec_count_lines: "io_spec P G E (count_lines paths acc)"
  by (induction paths arbitrary: acc) (simp_all add: io_spec_return io_spec_bind io_spec_read_lines)

lemma unredirected_history_stages:
  "io_spec (\<lambda>ev. \<not> discovery_probe_failed ev) (\<lambda>ev. True) E (history_stages env m rate verbose)"
  unfolding history_stages_def run_waymore_def run_katana_def run_gau_def Let_def
  by (intro io_spec_run_unredirected io_spec_steps io_spec_log_info unredirected_gau_batches)
     simp_all

lemma unredirected_filter_with_gf_uro_httpx:
  "io_spec (\<lambda>ev. \<not> discovery_probe_failed ev) (\<lambda>ev. True) E
     (filter_with_gf_uro_httpx env merged_in final_out rate_limit verbose)"
  unfolding filter_with_gf_uro_httpx_def normalize_and_probe_def Let_def
  by (intro io_spec_run_unredirected io_spec_steps unredirected_uro_batches
        unredirected_probe_batches)

lemma unredirected_merge_filter_scan:
  "io_spec (\<lambda>ev. \<not> discovery_probe_failed ev) (\<lambda>ev. True) E
     (merge_filter_scan env m rate verbose generated)"
  unfolding merge_filter_scan_def run_knoxnl_def
  by (intro io_spec_run_unredirected io_spec_steps io_spec_log_info io_spec_count_lines
        io_spec_merge_histories unredirected_filter_with_gf_uro_httpx)
     simp_all

lemma unredirected_after_discovery:
  "io_spec (\<lambda>ev. \<not> discovery_probe_failed ev) (\<lambda>ev. True) E
     (after_discovery env m rate verbose discovered live)"
  unfolding after_discovery_def
  by (intro io_spec_steps io_spec_log_info unredirected_history_stages
        unredirected_merge_filter_scan)
     simp_all

lemma fail_stop_main:
  "fail_stop (\<lambda>ev. \<not> history_exec ev) (\<lambda>ev. \<not> discovery_probe_failed ev)
     (RuntimeError (lit ''httpx failed while probing subdomains'')) (main env a)"
  unfolding main_def Let_def print_banner_def
  apply (rule fail_stop_prefix [OF io_spec_emit])
    apply simp
   apply simp
  apply (rule fail_stop_case_prod)
  apply (rule fail_stop_if)
   apply (rule fail_stop_good)
   apply (intro io_spec_steps io_spec_emit; simp)
  apply (rule fail_stop_prefix [OF io_spec_log_info])
    apply simp
   apply simp
  apply (rule fail_stop_bind_spec [OF probe_subfinder_to_httpx])
  apply (rule io_spec_case_prod)
  apply (rule unredirected_after_discovery)
  done

text \<open>
  C7.  If in a run of \<open>subfinder_to_httpx\<close> the liveness prober exits with a non-zero
  status on some batch, \<open>subfinder_to_httpx\<close> raises
  \<open>RuntimeError("httpx failed while probing subdomains")\<close>.  If this happens in a run of
  \<open>main\<close>, \<open>main\<close> ends with that exception and the run has started none of \<open>waymore\<close>,
  \<open>katana\<close> and \<open>gau\<close>.
\<close>

theorem discovery_probe_failure_stops_pipeline:
  "(discovery_probe_failed ev \<and>
    ev \<in> set (new_events w (snd (subfinder_to_httpx env domain subs_out rate_limit verbose w)))
      \<longrightarrow> fst (subfinder_to_httpx env domain subs_out rate_limit verbose w) =
            Inl (RuntimeError (lit ''httpx failed while probing subdomains''))) \<and>
   (discovery_probe_failed ev \<and> ev \<in> set (new_events w (snd (main env a w)))
      \<longrightarrow> fst (main env a w) = Inl (RuntimeError (lit ''httpx failed while probing subdomains'')) \<and>
          list_all (\<lambda>e. \<not> history_exec e) (new_events w (snd (main env a w))))"
proof (intro conjI impI)
  let ?m = "subfinder_to_httpx env domain subs_out rate_limit verbose"
  assume h: "discovery_probe_failed ev \<and> ev \<in> set (new_events w (snd (?m w)))"
  then have "\<not> list_all (\<lambda>ev. \<not> discovery_probe_failed ev) (new_events w (snd (?m w)))"
    by (auto simp: list_all_iff)
  with io_spec_new_events [OF probe_subfinder_to_httpx, of w env domain subs_out rate_limit verbose]
  show "fst (?m w) = Inl (RuntimeError (lit ''httpx failed while probing subdomains''))"
    by blast
next
  assume h: "discovery_probe_failed ev \<and> ev \<in> set (new_events w (snd (main env a w)))"
  from fail_stop_main [of env a] obtain evs where
    e: "events (snd (main env a w)) = events w @ evs" and
    d: "list_all (\<lambda>ev. \<not> discovery_probe_failed ev) evs \<or>
        (fst (main env a w) = Inl (RuntimeError (lit ''httpx failed while probing subdomains'')) \<and>
         list_all (\<lambda>ev. \<not> history_exec ev) evs)"
    unfolding fail_stop_def by blast
  from e have n: "new_events w (snd (main env a w)) = evs" by (simp add: new_events_def)
  with h have "\<not> list_all (\<lambda>ev. \<not> discovery_probe_failed ev) evs"
    by (auto simp: list_all_iff)
  with d n show "fst (main env a w) = Inl (RuntimeError (lit ''httpx failed while probing subdomains''))"
    and "list_all (\<lambda>e. \<not> history_exec e) (new_events w (snd (main env a w)))"
    by simp_all
qed

theorem discovery_probe_failure_stops_pipeline_witness:
  "discovery_probe_failed
     (Exec \<lparr>c_args = [lit ''httpx'', lit ''-silent''], c_input = Some (lit ''a.x.test'' @ [LF]),
             c_output_file = Some subs_file, c_append = False\<rparr> 1) \<and>
   new_events empty_world
     (snd (main (scripted_env Some
                   (example_script 0 (lit ''a.x.test'' @ [LF] @ lit ''b.x.test'' @ [LF]) 1))
             \<lparr>arg_domain = lit ''x.test'', arg_mode = All_sources, arg_rate_limit = 1,
              arg_verbose = False\<rparr> empty_world))
   = [Stdout (lit ''crawlexsses'' @ [LF]),
      Stdout (lit ''>>> subfinder: discovering subdomains for x.test ...'' @ [LF]),
      Exec \<lparr>c_args = [lit ''subfinder'', lit ''-d'', lit ''x.test'', lit ''-all'', lit ''-silent''],
             c_input = None, c_output_file = None, c_append = False\<rparr> 0,
      Exec \<lparr>c_args = [lit ''httpx'', lit ''-silent''], c_input = Some (lit ''a.x.test'' @ [LF]),
             c_output_file = Some subs_file, c_append = False\<rparr> 1] \<and>
   fst (main (scripted_env Some
                (example_script 0 (lit ''a.x.test'' @ [LF] @ lit ''b.x.test'' @ [LF]) 1))
          \<lparr>arg_domain = lit ''x.test'', arg_mode = All_sources, arg_rate_limit = 1,
           arg_verbose = False\<rparr> empty_world)
   = Inl (RuntimeError (lit ''httpx failed while probing subdomains'')) \<and>
   list_all (\<lambda>e. \<not> history_exec e)
     (new_events empty_world
        (snd (main (scripted_env Some
                      (example_script 0 (lit ''a.x.test'' @ [LF] @ lit ''b.x.test'' @ [LF]) 1))
                \<lparr>arg_domain = lit ''x.test'', arg_mode = All_sources, arg_rate_limit = 1,
                 arg_verbose = False\<rparr> empty_world)))"
proof -
  let ?env = "scripted_env Some
                (example_script 0 (lit ''a.x.test'' @ [LF] @ lit ''b.x.test'' @ [LF]) 1)"
  let ?a = "\<lparr>arg_domain = lit ''x.test'', arg_mode = All_sources, arg_rate_limit = 1,
              arg_verbose = False\<rparr>"
  let ?ev = "Exec \<lparr>c_args = [lit ''httpx'', lit ''-silent''], c_input = Some (lit ''a.x.test'' @ [LF]),
             c_output_file = Some subs_file, c_append = False\<rparr> 1"
  have failed: "discovery_probe_failed ?ev" by simp
  have evs: "new_events empty_world (snd (main ?env ?a empty_world))
   = [Stdout (lit ''crawlexsses'' @ [LF]),
      Stdout (lit ''>>> subfinder: discovering subdomains for x.test ...'' @ [LF]),
      Exec \<lparr>c_args = [lit ''subfinder'', lit ''-d'', lit ''x.test'', lit ''-all'', lit ''-silent''],
             c_input = None, c_output_file = None, c_append = False\<rparr> 0,
      ?ev]"
    by (simp add: main_def subfinder_to_httpx_def ensure_tools_exist_def required_tools_def
          run_eval)
  then have mem: "?ev \<in> set (new_events empty_world (snd (main ?env ?a empty_world)))"
    by simp
  from discovery_probe_failure_stops_pipeline [where ev = ?ev and w = empty_world and env = ?env and a = ?a]
    failed mem
  have "fst (main ?env ?a empty_world) =
          Inl (RuntimeError (lit ''httpx failed while probing subdomains''))"
    and "list_all (\<lambda>e. \<not> history_exec e) (new_events empty_world (snd (main ?env ?a empty_world)))"
    by blast+
  with failed evs show ?thesis by blast
qed

section \<open>Properties of the filter step and of the batches\<close>

lemma inputs_of_append: "inputs_of prog (xs @ ys) = inputs_of prog xs @ inputs_of prog ys"
  by (induction prog xs rule: inputs_of.induct) simp_all

lemma inputs_of_command_events:
  "inputs_of prog (command_events verbose c res) =
     (if (case c_args c of [] \<Rightarrow> False | name # _ \<Rightarrow> name = prog) then [c_input c] else [])"
  by (simp add: command_events_def)

lemma run_command_unfold:
  "run_command env args input_text output_file appending verbose w =
     (case tool env args input_text (open_for_output (files w) output_file appending) (ext w) of
        (res, fs2, e2) \<Rightarrow>
          (Inr \<lparr>returncode = t_returncode res,
                stdout = (case output_file of None \<Rightarrow> Some (t_stdout res) | Some _ \<Rightarrow> None)\<rparr>,
           w\<lparr>files := redirect_output fs2 output_file (t_stdout res), ext := e2,
             events := events w @
               command_events verbose
                 \<lparr>c_args = args, c_input = input_text, c_output_file = output_file,
                  c_append = appending\<rparr> res\<rparr>))"
  by (cases "tool env args input_text (open_for_output (files w) output_file appending) (ext w)")
     (simp add: run_command_result command_events_def)

lemma remove_if_exists_eq:
  "remove_if_exists path w = (Inr (), w\<lparr>files := (files w)(path := None)\<rparr>)"
proof (cases "path_exists w path")
  case True
  then show ?thesis by (simp add: remove_if_exists_def)
next
  case False
  then have "(files w)(path := None) = files w" by (simp add: path_exists_def fun_upd_idem)
  with False show ?thesis by (simp add: remove_if_exists_def)
qed

lemma stdout_lines_piped:
  "stdout_lines \<lparr>returncode = rc, stdout = Some (t_stdout res)\<rparr> = output_lines res"
  by (simp add: stdout_lines_def output_lines_def)

lemmas straight_line =
  io_bind_def io_return_def io_raise_def run_command_unfold remove_if_exists_eq read_lines_stored
  write_lines_def stdout_lines_piped Let_def new_events_def inputs_of_append
  inputs_of_command_events open_for_output_def redirect_output_def

lemma gau_single_batch:
  assumes r: "rate_limit \<le> 0"
    and subs: "stored_lines (files w) subs_in = subs" "subs \<noteq> []"
  shows "inputs_of (lit ''gau'')
           (new_events w (snd (run_gau env subs_in out_file rate_limit verbose w)))
         = [Some (batch_input subs)]"
  using r subs
  by (simp add: run_gau_def chunked_unlimited straight_line sleep_ms_def emit_def
        split: prod.splits)

lemma discovery_single_batch:
  assumes r: "rate_limit \<le> 0"
    and t: "tool env [lit ''subfinder'', lit ''-d'', domain, lit ''-all'', lit ''-silent''] None
              (files w) (ext w) = (r1, fs1, e1)"
    and rc: "t_returncode r1 = 0"
    and subs: "map py_strip (filter (\<lambda>s. py_strip s \<noteq> []) (output_lines r1)) = subdomains"
      "subdomains \<noteq> []"
  shows "inputs_of (lit ''httpx'')
           (new_events w (snd (subfinder_to_httpx env domain subs_out rate_limit verbose w)))
         = [Some (batch_input subdomains)]"
  using r t rc subs
  by (simp add: subfinder_to_httpx_def chunked_unlimited straight_line lit_def
        split: prod.splits)

lemma uro_single_batch:
  assumes r: "rate_limit \<le> 0"
    and l: "stored_lines (files w) merged_in = lines0" "lines0 \<noteq> []"
    and t: "tool env [lit ''gf'', lit ''xss''] (Some (batch_input (sorted_list_of_set (set lines0))))
              (files w) (ext w) = (r1, fs1, e1)"
    and rc: "t_returncode r1 = 0"
    and f: "structural_filter (output_lines r1) = filtered" "filtered \<noteq> []"
  shows "inputs_of (lit ''uro'')
           (new_events w (snd (filter_with_gf_uro_httpx env merged_in final_out rate_limit verbose w)))
         = [Some (batch_input filtered)]"
  using r l t rc f
  by (simp add: filter_with_gf_uro_httpx_def normalize_and_probe_def chunked_unlimited
        straight_line lit_def split: prod.splits)

lemma probe_single_batch:
  assumes r: "rate_limit \<le> 0"
    and l: "stored_lines (files w) merged_in = lines0" "lines0 \<noteq> []"
    and t: "tool env [lit ''gf'', lit ''xss''] (Some (batch_input (sorted_list_of_set (set lines0))))
              (files w) (ext w) = (r1, fs1, e1)"
    and rc: "t_returncode r1 = 0"
    and f: "structural_filter (output_lines r1) = filtered" "filtered \<noteq> []"
    and t2: "tool env [lit ''uro''] (Some (batch_input filtered)) (fs1(final_out := None)) e1
              = (r2, fs2, e2)"
    and rc2: "t_returncode r2 = 0"
    and n: "unique_preserve_order (filter (\<lambda>s. py_strip s \<noteq> []) (output_lines r2)) = normalized"
      "normalized \<noteq> []"
  shows "inputs_of (lit ''httpx'')
           (new_events w (snd (filter_with_gf_uro_httpx env merged_in final_out rate_limit verbose w)))
         = [Some (batch_input normalized)]"
  using r l t rc f t2 rc2 n
  by (simp add: filter_with_gf_uro_httpx_def normalize_and_probe_def chunked_unlimited
        straight_line lit_def split: prod.splits)

lemma io_post_bind:
  assumes m: "io_post m QA" and f: "\<And>x. io_post (f x) (QB x)"
    and l: "\<And>e evs. QA (Inl e) evs \<Longrightarrow> Q (Inl e) evs"
    and r: "\<And>x evs1 r evs2. QA (Inr x) evs1 \<Longrightarrow> QB x r evs2 \<Longrightarrow> Q r (evs1 @ evs2)"
  shows "io_post (io_bind m f) Q"
  unfolding io_post_def
proof
  fix w
  from m obtain evs1 where e1: "events (snd (m w)) = events w @ evs1" and qa: "QA (fst (m w)) evs1"
    unfolding io_post_def by blast
  show "\<exists>evs. events (snd (io_bind m f w)) = events w @ evs \<and> Q (fst (io_bind m f w)) evs"
  proof (cases "fst (m w)")
    case (Inl e)
    then have "io_bind m f w = (Inl e, snd (m w))"
      by (cases "m w") (simp add: io_bind_def)
    with e1 qa Inl l show ?thesis by auto
  next
    case (Inr x)
    then have b: "io_bind m f w = f x (snd (m w))"
      by (cases "m w") (simp add: io_bind_def)
    from f [of x] obtain evs2 where
      e2: "events (snd (f x (snd (m w)))) = events (snd (m w)) @ evs2"
      and qb: "QB x (fst (f x (snd (m w)))) evs2"
      unfolding io_post_def by blast
    from qa Inr qb have "Q (fst (f x (snd (m w)))) (evs1 @ evs2)" by (simp add: r)
    with e1 e2 b show ?thesis by auto
  qed
qed

lemma io_post_weaken: "io_post m Q \<Longrightarrow> (\<And>r evs. Q r evs \<Longrightarrow> Q' r evs) \<Longrightarrow> io_post m Q'"
  unfolding io_post_def by blast

lemma io_post_return: "io_post (io_return x) (\<lambda>r evs. r = Inr x \<and> evs = [])"
  by (simp add: io_post_def io_return_def)

lemma io_post_silent:
  assumes "io_spec (\<lambda>ev. False) (\<lambda>ev. True) E m"
  shows "io_post m (\<lambda>r evs. evs = [])"
  unfolding io_post_def
proof
  fix w
  from assms obtain evs where "events (snd (m w)) = events w @ evs" and "list_all (\<lambda>ev. False) evs"
    unfolding io_spec_def by blast
  moreover from this have "evs = []" by (cases evs) simp_all
  ultimately show "\<exists>evs. events (snd (m w)) = events w @ evs \<and> evs = []" by simp
qed

lemma inputs_of_none:
  "list_all (\<lambda>ev. inputs_of prog [ev] = []) evs \<Longrightarrow> inputs_of prog evs = []"
proof (induction evs)
  case Nil
  show ?case by simp
next
  case (Cons ev evs)
  then have "inputs_of prog ([ev] @ evs) = []"
    unfolding inputs_of_append by simp
  then show ?case by simp
qed

lemma io_post_without:
  assumes "io_spec (\<lambda>ev. inputs_of prog [ev] = []) (\<lambda>ev. True) E m"
  shows "io_post m (\<lambda>r evs. inputs_of prog evs = [])"
  unfolding io_post_def
proof
  fix w
  from assms obtain evs where "events (snd (m w)) = events w @ evs"
    and "list_all (\<lambda>ev. inputs_of prog [ev] = []) evs"
    unfolding io_spec_def by blast
  then show "\<exists>evs. events (snd (m w)) = events w @ evs \<and> inputs_of prog evs = []"
    using inputs_of_none by blast
qed

lemma uro_batches_inputs:
  "io_post (uro_batches env rate_limit verbose acc batches)
     (\<lambda>r evs. prefix (inputs_of (lit ''uro'') evs) (map (\<lambda>b. Some (batch_input b)) batches) \<and>
               (batches \<noteq> [] \<longrightarrow> inputs_of (lit ''uro'') evs \<noteq> []) \<and>
               ((\<exists>x. r = Inr x) \<longrightarrow>
                  inputs_of (lit ''uro'') evs = map (\<lambda>b. Some (batch_input b)) batches))"
proof (induction batches arbitrary: acc)
  case Nil
  show ?case by (simp add: io_post_def io_return_def)
next
  case (Cons batch rest)
  show ?case
    unfolding io_post_def
  proof
    fix w :: "'a world"
    obtain res fs2 e2 where
      t: "tool env [lit ''uro''] (Some (batch_input batch)) (files w) (ext w) = (res, fs2, e2)"
      by (cases "tool env [lit ''uro''] (Some (batch_input batch)) (files w) (ext w)") auto
    let ?call = "\<lparr>c_args = [lit ''uro''], c_input = Some (batch_input batch), c_output_file = None,
                   c_append = False\<rparr>"
    let ?ce = "command_events verbose ?call res"
    let ?m = "uro_batches env rate_limit verbose acc (batch # rest)"
    have ce: "inputs_of (lit ''uro'') ?ce = [Some (batch_input batch)]"
      by (simp add: inputs_of_command_events)
    show "\<exists>evs. events (snd (?m w)) = events w @ evs \<and>
        prefix (inputs_of (lit ''uro'') evs) (map (\<lambda>b. Some (batch_input b)) (batch # rest)) \<and>
        (batch # rest \<noteq> [] \<longrightarrow> inputs_of (lit ''uro'') evs \<noteq> []) \<and>
        ((\<exists>x. fst (?m w) = Inr x) \<longrightarrow>
           inputs_of (lit ''uro'') evs = map (\<lambda>b. Some (batch_input b)) (batch # rest))"
    proof (cases "t_returncode res = 0")
      case False
      with t have "events (snd (?m w)) = events w @ ?ce" and "\<not> (\<exists>x. fst (?m w) = Inr x)"
        by (simp_all add: io_bind_def io_raise_def run_command_unfold open_for_output_def
              redirect_output_def)
      with ce show ?thesis by auto
    next
      case True
      let ?pause = "if rate_limit > 0 then [Sleep 50] else []"
      let ?w1 = "w\<lparr>files := fs2, ext := e2, events := events w @ ?ce @ ?pause\<rparr>"
      let ?k = "uro_batches env rate_limit verbose (acc @ output_lines res) rest"
      from True t have m: "?m w = ?k ?w1"
        by (simp add: io_bind_def io_return_def run_command_unfold open_for_output_def
              redirect_output_def stdout_lines_piped sleep_ms_def emit_def log_event_def)
      from Cons.IH [of "acc @ output_lines res"] obtain evs2 where
        e2: "events (snd (?k ?w1)) = events ?w1 @ evs2"
        and p2: "prefix (inputs_of (lit ''uro'') evs2) (map (\<lambda>b. Some (batch_input b)) rest)"
        and r2: "(\<exists>x. fst (?k ?w1) = Inr x) \<longrightarrow>
                  inputs_of (lit ''uro'') evs2 = map (\<lambda>b. Some (batch_input b)) rest"
        unfolding io_post_def by blast
      have i: "inputs_of (lit ''uro'') (?ce @ ?pause @ evs2)
               = Some (batch_input batch) # inputs_of (lit ''uro'') evs2"
        by (simp add: inputs_of_append ce)
      from e2 m have "events (snd (?m w)) = events w @ (?ce @ ?pause @ evs2)" by simp
      moreover from p2 i have "prefix (inputs_of (lit ''uro'') (?ce @ ?pause @ evs2))
          (map (\<lambda>b. Some (batch_input b)) (batch # rest))"
        by simp
      moreover from i have "inputs_of (lit ''uro'') (?ce @ ?pause @ evs2) \<noteq> []" by simp
      moreover from r2 m i have "(\<exists>x. fst (?m w) = Inr x) \<longrightarrow>
          inputs_of (lit ''uro'') (?ce @ ?pause @ evs2)
          = map (\<lambda>b. Some (batch_input b)) (batch # rest)"
        by simp
      ultimately show ?thesis by blast
    qed
  qed
qed

lemma io_post_if:
  "(c \<Longrightarrow> io_post a Q) \<Longrightarrow> (\<not> c \<Longrightarrow> io_post b Q) \<Longrightarrow> io_post (if c then a else b) Q"
  by simp

lemma io_post_write_return:
  "R (Inr t) \<Longrightarrow>
   io_post (io_bind (write_lines path ls) (\<lambda>_. io_return t))
     (\<lambda>r evs. inputs_of prog evs = [] \<and> R r)"
  by (simp add: io_post_def io_bind_def write_lines_def io_return_def)

lemma io_post_bind_tail:
  assumes m: "io_post m (\<lambda>r evs. inputs_of prog evs = [])"
    and f: "\<And>x. io_post (f x) (\<lambda>r evs. inputs_of prog evs = [] \<and> R r)"
    and l: "\<And>e. R (Inl e)"
  shows "io_post (io_bind m f) (\<lambda>r evs. inputs_of prog evs = [] \<and> R r)"
  by (rule io_post_bind [OF m f]) (simp_all add: l inputs_of_append)

lemma probe_batches_without_uro:
  "io_spec (\<lambda>ev. inputs_of (lit ''uro'') [ev] = []) (\<lambda>ev. True) E
     (probe_batches env rate_limit verbose acc batches)"
proof (induction batches arbitrary: acc)
  case Nil
  show ?case by (simp add: io_spec_return)
next
  case (Cons batch rest)
  show ?case
    unfolding probe_batches.simps
    apply (rule io_spec_run_checked)
        apply (simp add: lit_def)
       apply simp
      apply simp
     apply simp
    apply (intro io_spec_steps io_spec_sleep_ms Cons.IH)
     apply simp_all
    done
qed

lemma normalize_and_probe_fed_uro:
  "io_post (normalize_and_probe env final_out rate_limit verbose gf_lines filtered)
     (fed_uro (chunked filtered (batch_size rate_limit filtered)) (length gf_lines)
        (length filtered))"
  unfolding normalize_and_probe_def Let_def
  apply (rule io_post_bind
      [where QA = "\<lambda>r evs. evs = [] \<and> r = Inr ()"
         and QB = "\<lambda>_. fed_uro (chunked filtered (batch_size rate_limit filtered))
                          (length gf_lines) (length filtered)"])
     apply (simp add: io_post_def remove_if_exists_eq)
    apply (rule io_post_bind
      [OF uro_batches_inputs,
       where QB = "\<lambda>_ r evs. inputs_of (lit ''uro'') evs = [] \<and>
                     (\<forall>a b c d. r = Inr (a, b, c, d) \<longrightarrow>
                        a = length gf_lines \<and> b = length filtered)"])
      apply (rule io_post_if)
       apply (rule io_post_write_return)
       apply simp
      apply (rule io_post_bind_tail [OF io_post_without [OF probe_batches_without_uro]])
       apply (rule io_post_write_return)
       apply simp
      apply simp
     apply (simp add: fed_uro_def)
    apply (auto simp: fed_uro_def inputs_of_append)[1]
   apply simp
  apply simp
  done

lemma concat_chunked_batch_size: "concat (chunked seq (batch_size rate_limit seq)) = seq"
proof (cases "seq = []")
  case True
  then show ?thesis
    by (simp add: chunked_def batch_size_def chunked_from.simps)
next
  case False
  then show ?thesis
    by (simp add: chunked_def batch_size_def concat_chunked_from)
qed

lemma filter_step_after_gf:
  assumes l: "stored_lines (files w) merged_in = lines0" "lines0 \<noteq> []"
    and t: "tool env [lit ''gf'', lit ''xss''] (Some (batch_input (sorted_list_of_set (set lines0))))
              (files w) (ext w) = (res, fs1, e1)"
    and rc: "t_returncode res = 0"
  shows "filter_with_gf_uro_httpx env merged_in final_out rate_limit verbose w =
     (let w1 = w\<lparr>files := fs1, ext := e1,
                 events := events w @
                   command_events verbose
                     \<lparr>c_args = [lit ''gf'', lit ''xss''],
                      c_input = Some (batch_input (sorted_list_of_set (set lines0))),
                      c_output_file = None, c_append = False\<rparr> res\<rparr>
      in if structural_filter (output_lines res) = []
         then (Inr (length (output_lines res), 0, 0, 0), w1\<lparr>files := fs1(final_out \<mapsto> [])\<rparr>)
         else normalize_and_probe env final_out rate_limit verbose (output_lines res)
                (structural_filter (output_lines res)) w1)"
  using l t rc
  by (simp add: filter_with_gf_uro_httpx_def io_bind_def io_return_def run_command_unfold
        read_lines_stored write_lines_def stdout_lines_piped Let_def open_for_output_def
        redirect_output_def)

lemma filter_step_feeds_uro:
  assumes l: "stored_lines (files w) merged_in = lines0" "lines0 \<noteq> []"
    and t: "tool env [lit ''gf'', lit ''xss''] (Some (batch_input (sorted_list_of_set (set lines0))))
              (files w) (ext w) = (res, fs1, e1)"
    and rc: "t_returncode res = 0"
    and f: "structural_filter (output_lines res) \<noteq> []"
  shows "fed_uro
           (chunked (structural_filter (output_lines res))
              (batch_size rate_limit (structural_filter (output_lines res))))
           (length (output_lines res)) (length (structural_filter (output_lines res)))
           (fst (filter_with_gf_uro_httpx env merged_in final_out rate_limit verbose w))
           (new_events w (snd (filter_with_gf_uro_httpx env merged_in final_out rate_limit verbose w)))"
proof -
  let ?call = "\<lparr>c_args = [lit ''gf'', lit ''xss''],
                 c_input = Some (batch_input (sorted_list_of_set (set lines0))),
                 c_output_file = None, c_append = False\<rparr>"
  let ?ce = "command_events verbose ?call res"
  let ?w1 = "w\<lparr>files := fs1, ext := e1, events := events w @ ?ce\<rparr>"
  let ?filtered = "structural_filter (output_lines res)"
  let ?np = "normalize_and_probe env final_out rate_limit verbose (output_lines res) ?filtered"
  let ?B = "chunked ?filtered (batch_size rate_limit ?filtered)"
  from filter_step_after_gf [OF l t rc, of final_out rate_limit verbose] f
  have run: "filter_with_gf_uro_httpx env merged_in final_out rate_limit verbose w = ?np ?w1"
    by (simp add: Let_def)
  from normalize_and_probe_fed_uro [of env final_out rate_limit verbose "output_lines res" ?filtered]
  obtain evs where e: "events (snd (?np ?w1)) = events ?w1 @ evs"
    and p: "fed_uro ?B (length (output_lines res)) (length ?filtered) (fst (?np ?w1)) evs"
    unfolding io_post_def by blast
  from e have n: "new_events w (snd (?np ?w1)) = ?ce @ evs"
    by (simp add: new_events_def)
  have "inputs_of (lit ''uro'') (?ce @ evs) = inputs_of (lit ''uro'') evs"
    by (simp add: inputs_of_append inputs_of_command_events lit_def)
  with p have "fed_uro ?B (length (output_lines res)) (length ?filtered) (fst (?np ?w1)) (?ce @ evs)"
    by (simp add: fed_uro_def)
  with run n show ?thesis by simp
qed

section \<open>Properties of the extension-exclusion pattern\<close>

lemma rmatch_literals:
  "rmatch (Seq (map Lit ps)) s =
     (if length ps \<le> length s \<and> list_all2 ignorecase_eq ps (take (length ps) s)
      then [drop (length ps) s] else [])"
proof (induction ps arbitrary: s)
  case Nil
  show ?case by simp
next
  case (Cons p ps)
  show ?case
  proof (cases s)
    case Nil
    then show ?thesis by simp
  next
    case (Cons c cs)
    then show ?thesis
      by (cases "ignorecase_eq p c") (simp_all add: Cons.IH)
  qed
qed

lemma rmatch_word:
  "rmatch (word w) s \<noteq> [] \<longleftrightarrow> (\<exists>e t. s = e @ t \<and> list_all2 ignorecase_eq (lit w) e)"
proof
  assume "rmatch (word w) s \<noteq> []"
  then have "length (lit w) \<le> length s"
    and "list_all2 ignorecase_eq (lit w) (take (length (lit w)) s)"
    by (auto simp: word_def rmatch_literals split: if_splits)
  then have "s = take (length (lit w)) s @ drop (length (lit w)) s \<and>
      list_all2 ignorecase_eq (lit w) (take (length (lit w)) s)"
    by simp
  then show "\<exists>e t. s = e @ t \<and> list_all2 ignorecase_eq (lit w) e" by blast
next
  assume "\<exists>e t. s = e @ t \<and> list_all2 ignorecase_eq (lit w) e"
  then obtain e t where s: "s = e @ t" and e: "list_all2 ignorecase_eq (lit w) e" by blast
  from e have "length (lit w) = length e" by (rule list_all2_lengthD)
  with s e show "rmatch (word w) s \<noteq> []"
    by (simp add: word_def rmatch_literals)
qed

lemma rmatch_word_remainder:
  "t \<in> set (rmatch (word w) s) \<longleftrightarrow> (\<exists>e. s = e @ t \<and> list_all2 ignorecase_eq (lit w) e)"
proof
  assume "t \<in> set (rmatch (word w) s)"
  then have len: "length (lit w) \<le> length s"
    and m: "list_all2 ignorecase_eq (lit w) (take (length (lit w)) s)"
    and t: "t = drop (length (lit w)) s"
    by (auto simp: word_def rmatch_literals split: if_splits)
  have "s = take (length (lit w)) s @ t" using t by simp
  with m show "\<exists>e. s = e @ t \<and> list_all2 ignorecase_eq (lit w) e" by blast
next
  assume "\<exists>e. s = e @ t \<and> list_all2 ignorecase_eq (lit w) e"
  then obtain e where s: "s = e @ t" and e: "list_all2 ignorecase_eq (lit w) e" by blast
  from e have "length (lit w) = length e" by (rule list_all2_lengthD)
  with s e show "t \<in> set (rmatch (word w) s)"
    by (simp add: word_def rmatch_literals)
qed

lemma ignorecase_eq_dot: "ignorecase_eq 46 c \<longleftrightarrow> c = 46"
  by (simp add: ignorecase_eq_def)

lemma ignorecase_eq_question: "ignorecase_eq 63 c \<longleftrightarrow> c = 63"
  by (simp add: ignorecase_eq_def)

lemma rmatch_tail_anchor:
  "rmatch (Seq [Alt [Eol, Lit 63]]) t \<noteq> [] \<longleftrightarrow> (t = [] \<or> t = [LF] \<or> (\<exists>q. t = 63 # q))"
  by (cases t) (auto simp: ignorecase_eq_question)

lemma concat_map_nonempty:
  "concat (map f xs) \<noteq> [] \<longleftrightarrow> (\<exists>x \<in> set xs. f x \<noteq> [])"
  by (induction xs) auto

lemma rmatch_Seq_Cons_nonempty:
  "rmatch (Seq (r # rs)) s \<noteq> [] \<longleftrightarrow> (\<exists>t \<in> set (rmatch r s). rmatch (Seq rs) t \<noteq> [])"
  by (simp add: concat_map_nonempty)

lemma rmatch_Alt_remainder:
  "t \<in> set (rmatch (Alt rs) s) \<longleftrightarrow> (\<exists>r \<in> set rs. t \<in> set (rmatch r s))"
  by auto

lemma rmatch_Lit_remainder:
  "t \<in> set (rmatch (Lit p) s) \<longleftrightarrow> (\<exists>c. s = c # t \<and> ignorecase_eq p c)"
  by (cases s) auto

lemma rmatch_exclude_here:
  "rmatch EXCLUDE_EXT_REGEX s \<noteq> [] \<longleftrightarrow>
     (\<exists>e t. s = 46 # e @ t \<and> listed_ignorecase e \<and> (t = [] \<or> t = [LF] \<or> (\<exists>q. t = 63 # q)))"
proof -
  have "rmatch EXCLUDE_EXT_REGEX s \<noteq> [] \<longleftrightarrow>
      (\<exists>t1 \<in> set (rmatch (Lit 46) s).
         \<exists>t2 \<in> set (rmatch (Alt (map word EXCLUDED_EXTENSIONS)) t1).
            rmatch (Seq [Alt [Eol, Lit 63]]) t2 \<noteq> [])"
    by (simp only: EXCLUDE_EXT_REGEX_def rmatch_Seq_Cons_nonempty)
  also have "\<dots> \<longleftrightarrow>
      (\<exists>cs. s = 46 # cs \<and>
         (\<exists>w \<in> set EXCLUDED_EXTENSIONS. \<exists>t. t \<in> set (rmatch (word w) cs) \<and>
            rmatch (Seq [Alt [Eol, Lit 63]]) t \<noteq> []))"
    unfolding Bex_def rmatch_Lit_remainder rmatch_Alt_remainder ignorecase_eq_dot
    by (auto simp del: rmatch.simps)
  also have "\<dots> \<longleftrightarrow>
      (\<exists>e t. s = 46 # e @ t \<and> listed_ignorecase e \<and> (t = [] \<or> t = [LF] \<or> (\<exists>q. t = 63 # q)))"
    unfolding rmatch_tail_anchor rmatch_word_remainder listed_ignorecase_def list_ex_iff
    by blast
  finally show ?thesis .
qed

lemma re_search_iff:
  "re_search r s \<longleftrightarrow> (\<exists>p t. s = p @ t \<and> rmatch r t \<noteq> [])"
proof (induction s)
  case Nil
  show ?case by simp
next
  case (Cons c cs)
  show ?case
  proof
    assume "re_search r (c # cs)"
    then consider "rmatch r (c # cs) \<noteq> []" | "re_search r cs" by auto
    then show "\<exists>p t. c # cs = p @ t \<and> rmatch r t \<noteq> []"
    proof cases
      case 1
      then have "c # cs = [] @ (c # cs) \<and> rmatch r (c # cs) \<noteq> []" by simp
      then show ?thesis by blast
    next
      case 2
      with Cons.IH obtain p t where "cs = p @ t" "rmatch r t \<noteq> []" by blast
      then have "c # cs = (c # p) @ t \<and> rmatch r t \<noteq> []" by simp
      then show ?thesis by blast
    qed
  next
    assume "\<exists>p t. c # cs = p @ t \<and> rmatch r t \<noteq> []"
    then obtain p t where pt: "c # cs = p @ t" and m: "rmatch r t \<noteq> []" by blast
    show "re_search r (c # cs)"
    proof (cases p)
      case Nil
      with pt have "t = c # cs" by simp
      with m show ?thesis by simp
    next
      case (Cons a p')
      with pt have "cs = p' @ t" by simp
      with m Cons.IH show ?thesis by auto
    qed
  qed
qed

lemma exclude_ext_search_iff:
  "re_search EXCLUDE_EXT_REGEX u \<longleftrightarrow>
     (\<exists>p e t. u = p @ 46 # e @ t \<and> listed_ignorecase e \<and>
        (t = [] \<or> t = [LF] \<or> (\<exists>q. t = 63 # q)))"
  unfolding re_search_iff rmatch_exclude_here by blast

lemma ignorecase_eq_ascii_lower: "ignorecase_eq (ascii_lower c) c"
  by (auto simp: ignorecase_eq_def ascii_lower_def Let_def)

lemma ignorecase_eq_ascii:
  "c < 128 \<Longrightarrow> \<not> (65 \<le> p \<and> p \<le> 90) \<Longrightarrow> ignorecase_eq p c \<longleftrightarrow> ascii_lower c = p"
  by (auto simp: ignorecase_eq_def ascii_lower_def Let_def)

lemma list_all2_ignorecase_ascii_lower:
  "list_all2 ignorecase_eq (map ascii_lower e) e"
  by (induction e) (simp_all add: ignorecase_eq_ascii_lower)

lemma listed_extension_ignorecase:
  "listed_extension e \<Longrightarrow> listed_ignorecase e"
  unfolding listed_extension_def listed_ignorecase_def list_ex_iff
  by (metis list_all2_ignorecase_ascii_lower)

lemma list_all2_ignorecase_ascii:
  "\<forall>c \<in> set e. c < 128 \<Longrightarrow> \<forall>p \<in> set ps. \<not> (65 \<le> p \<and> p \<le> 90) \<Longrightarrow>
   list_all2 ignorecase_eq ps e \<longleftrightarrow> map ascii_lower e = ps"
proof (induction e arbitrary: ps)
  case Nil
  show ?case by auto
next
  case (Cons c e)
  show ?case
  proof (cases ps)
    case Nil
    then show ?thesis by simp
  next
    case (Cons p ps')
    with Cons.prems Cons.IH [of ps'] show ?thesis
      by (simp add: ignorecase_eq_ascii)
  qed
qed

lemma excluded_extensions_lowercase:
  "\<forall>w \<in> set EXCLUDED_EXTENSIONS. \<forall>p \<in> set (lit w). \<not> (65 \<le> p \<and> p \<le> 90)"
  by (simp add: EXCLUDED_EXTENSIONS_def lit_def)

lemma listed_ignorecase_ascii:
  "\<forall>c \<in> set e. c < 128 \<Longrightarrow> listed_ignorecase e \<longleftrightarrow> listed_extension e"
  unfolding listed_extension_def listed_ignorecase_def list_ex_iff
  using excluded_extensions_lowercase list_all2_ignorecase_ascii [of e]
  by blast

lemma exclude_ext_search_listed:
  assumes "listed_ignorecase e" and "t = [] \<or> t = [LF] \<or> (\<exists>q. t = 63 # q)"
  shows "re_search EXCLUDE_EXT_REGEX (p @ 46 # e @ t)"
  unfolding exclude_ext_search_iff using assms by blast

lemma exclude_ext_search_no_line_feed:
  assumes "LF \<notin> set u" and "re_search EXCLUDE_EXT_REGEX u"
  shows "\<exists>p e t. u = p @ 46 # e @ t \<and> listed_ignorecase e \<and> (t = [] \<or> (\<exists>q. t = 63 # q))"
proof -
  from assms(2) obtain p e t where u: "u = p @ 46 # e @ t" and e: "listed_ignorecase e"
    and t: "t = [] \<or> t = [LF] \<or> (\<exists>q. t = 63 # q)"
    unfolding exclude_ext_search_iff by blast
  from assms(1) u have "t \<noteq> [LF]" by auto
  with u e t show ?thesis by blast
qed

lemma exclude_ext_search_ascii:
  assumes "LF \<notin> set u" and "\<forall>c \<in> set u. c < 128" and "re_search EXCLUDE_EXT_REGEX u"
  shows "\<exists>p e t. u = p @ 46 # e @ t \<and> listed_extension e \<and> (t = [] \<or> (\<exists>q. t = 63 # q))"
proof -
  from exclude_ext_search_no_line_feed [OF assms(1,3)]
  obtain p e t where u: "u = p @ 46 # e @ t" and e: "listed_ignorecase e"
    and t: "t = [] \<or> (\<exists>q. t = 63 # q)"
    by blast
  from assms(2) u have "\<forall>c \<in> set e. c < 128" by auto
  with e have "listed_extension e" by (simp add: listed_ignorecase_ascii)
  with u t show ?thesis by blast
qed

lemmas exclude_ext_eval =
  lit_def LF_def EXCLUDE_EXT_REGEX_def EXCLUDED_EXTENSIONS_def word_def ignorecase_eq_def

lemma excluded_extensions_plain:
  "\<forall>w \<in> set EXCLUDED_EXTENSIONS. \<forall>p \<in> set (lit w). p \<noteq> 46 \<and> p \<noteq> 63 \<and> p \<noteq> 14 \<and> p \<noteq> 31"
  by (simp add: EXCLUDED_EXTENSIONS_def lit_def)

lemma ignorecase_eq_not_dot_question:
  "ignorecase_eq p c \<Longrightarrow> p \<noteq> 46 \<Longrightarrow> p \<noteq> 63 \<Longrightarrow> c \<noteq> 46 \<and> c \<noteq> 63"
  by (auto simp: ignorecase_eq_def Let_def split: if_splits)

lemma list_all2_ignorecase_plain:
  "list_all2 ignorecase_eq ps e \<Longrightarrow> \<forall>p \<in> set ps. p \<noteq> 46 \<and> p \<noteq> 63 \<Longrightarrow>
   46 \<notin> set e \<and> 63 \<notin> set e"
proof (induction ps e rule: list_all2_induct)
  case Nil
  show ?case by simp
next
  case (Cons p ps c e)
  from Cons.hyps(1) Cons.prems have "c \<noteq> 46 \<and> c \<noteq> 63"
    by (simp add: ignorecase_eq_not_dot_question)
  with Cons show ?case by auto
qed

lemma listed_ignorecase_plain:
  assumes "listed_ignorecase e"
  shows "46 \<notin> set e \<and> 63 \<notin> set e"
proof -
  from assms obtain w where w: "w \<in> set EXCLUDED_EXTENSIONS"
    and m: "list_all2 ignorecase_eq (lit w) e"
    by (auto simp: listed_ignorecase_def list_ex_iff)
  from w excluded_extensions_plain have "\<forall>p \<in> set (lit w). p \<noteq> 46 \<and> p \<noteq> 63" by blast
  with m show ?thesis by (rule list_all2_ignorecase_plain)
qed

lemma final_extension_append:
  "46 \<notin> set e \<Longrightarrow> final_extension (p @ 46 # e) = Some e"
proof -
  assume e: "46 \<notin> set e"
  then have "takeWhile (\<lambda>c. c \<noteq> 46) (rev e) = rev e"
    by (auto simp: takeWhile_eq_all_conv)
  then have "takeWhile (\<lambda>c. c \<noteq> 46) (rev e @ 46 # rev p) = rev e"
    by (simp add: takeWhile_tail)
  then show ?thesis by (simp add: final_extension_def)
qed

lemma exclude_ext_search_path_extension:
  assumes lf: "LF \<notin> set u" and q: "46 \<notin> set (query_part u)"
    and x: "re_search EXCLUDE_EXT_REGEX u"
  shows "\<exists>e. final_extension (before_query u) = Some e \<and> listed_ignorecase e"
proof -
  from exclude_ext_search_no_line_feed [OF lf x]
  obtain p e t where u: "u = p @ 46 # e @ t" and e: "listed_ignorecase e"
    and t: "t = [] \<or> (\<exists>q. t = 63 # q)"
    by blast
  from listed_ignorecase_plain [OF e] have e46: "46 \<notin> set e" and e63: "63 \<notin> set e" by simp_all
  have p63: "63 \<notin> set p"
  proof
    assume "63 \<in> set p"
    then have "query_part u = dropWhile (\<lambda>c. c \<noteq> 63) p @ 46 # e @ t"
      unfolding query_part_def u by (simp add: dropWhile_append1)
    with q show False by simp
  qed
  have "before_query u = p @ 46 # e"
  proof -
    have "\<forall>c \<in> set (p @ 46 # e). c \<noteq> 63" using p63 e63 by auto
    then have "takeWhile (\<lambda>c. c \<noteq> 63) ((p @ 46 # e) @ t) = (p @ 46 # e) @ takeWhile (\<lambda>c. c \<noteq> 63) t"
      by (intro takeWhile_append2) blast
    moreover from t have "takeWhile (\<lambda>c. c \<noteq> 63) t = []" by auto
    ultimately show ?thesis unfolding before_query_def u by simp
  qed
  with e46 e show ?thesis by (simp add: final_extension_append)
qed

text \<open>
  C1, as stated, fails in its second half: a URL that ends in an unlisted extension, or
  in none, is excluded when a dot and a listed extension stand before a \<open>?\<close> or at the end
  of the string anywhere in it.  \<open>php\<close> is not listed.  The first URL ends in \<open>.php\<close> as a
  string; in the second the part before the query ends in \<open>.php\<close>; in the third both do;
  in the fourth the part before the query has no extension.  All four are excluded.
\<close>

theorem exclude_ext_regex_unlisted_ending_counterexample:
  "\<not> listed_ignorecase (lit ''php'') \<and>
   final_extension (lit ''https://x.test/a.js?f=b.php'') = Some (lit ''php'') \<and>
   re_search EXCLUDE_EXT_REGEX (lit ''https://x.test/a.js?f=b.php'') \<and>
   final_extension (before_query (lit ''https://x.test/a.php?x=1.png'')) = Some (lit ''php'') \<and>
   re_search EXCLUDE_EXT_REGEX (lit ''https://x.test/a.php?x=1.png'') \<and>
   final_extension (lit ''https://x.test/a.php?f=b.js?g=c.php'') = Some (lit ''php'') \<and>
   final_extension (before_query (lit ''https://x.test/a.php?f=b.js?g=c.php'')) = Some (lit ''php'') \<and>
   re_search EXCLUDE_EXT_REGEX (lit ''https://x.test/a.php?f=b.js?g=c.php'') \<and>
   final_extension (before_query (lit ''/search?q=.js'')) = None \<and>
   re_search EXCLUDE_EXT_REGEX (lit ''/search?q=.js'')"
proof (intro conjI)
  show "\<not> listed_ignorecase (lit ''php'')"
    by (simp add: listed_ignorecase_def EXCLUDED_EXTENSIONS_def lit_def ignorecase_eq_def)
  show "final_extension (lit ''https://x.test/a.js?f=b.php'') = Some (lit ''php'')"
    by (simp add: final_extension_def lit_def)
  show "re_search EXCLUDE_EXT_REGEX (lit ''https://x.test/a.js?f=b.php'')"
    by (simp add: exclude_ext_eval)
  show "final_extension (before_query (lit ''https://x.test/a.php?x=1.png'')) = Some (lit ''php'')"
    by (simp add: final_extension_def before_query_def lit_def)
  show "re_search EXCLUDE_EXT_REGEX (lit ''https://x.test/a.php?x=1.png'')"
    by (simp add: exclude_ext_eval)
  show "final_extension (lit ''https://x.test/a.php?f=b.js?g=c.php'') = Some (lit ''php'')"
    by (simp add: final_extension_def lit_def)
  show "final_extension (before_query (lit ''https://x.test/a.php?f=b.js?g=c.php'')) = Some (lit ''php'')"
    by (simp add: final_extension_def before_query_def lit_def)
  show "re_search EXCLUDE_EXT_REGEX (lit ''https://x.test/a.php?f=b.js?g=c.php'')"
    by (simp add: exclude_ext_eval)
  show "final_extension (before_query (lit ''/search?q=.js'')) = None"
    by (simp add: final_extension_def before_query_def lit_def)
  show "re_search EXCLUDE_EXT_REGEX (lit ''/search?q=.js'')"
    by (simp add: exclude_ext_eval)
qed

text \<open>
  C1, amended.  Code points 46 and 63 are \<open>.\<close> and \<open>?\<close>.  (1) A string that ends in a dot
  and a listed extension, in any ASCII letter case, is excluded, and so is one in which a
  \<open>?\<close> and any query follow that extension.  (2) A string without line feed in which no
  dot and listed extension (with the case equivalence of \<open>re.IGNORECASE\<close>) is followed by
  the end of the string or by \<open>?\<close> is not excluded; (3) for ASCII text the same holds with
  ASCII letter case.  (4) In particular a URL without line feed is not excluded when its
  part before the first \<open>?\<close> ends in an unlisted extension or has no dot, and its query
  holds no dot.  The pattern is applied to lines that \<open>str.splitlines\<close> returns, which
  hold no line feed.
\<close>

theorem exclude_ext_regex_listed_extensions:
  "(listed_extension e \<longrightarrow>
      re_search EXCLUDE_EXT_REGEX (p @ 46 # e) \<and>
      re_search EXCLUDE_EXT_REGEX (p @ 46 # e @ 63 # q)) \<and>
   (LF \<notin> set u \<and>
    \<not> (\<exists>p' e' t. u = p' @ 46 # e' @ t \<and> listed_ignorecase e' \<and> (t = [] \<or> (\<exists>q'. t = 63 # q')))
      \<longrightarrow> \<not> re_search EXCLUDE_EXT_REGEX u) \<and>
   (LF \<notin> set v \<and> (\<forall>c \<in> set v. c < 128) \<and>
    \<not> (\<exists>p' e' t. v = p' @ 46 # e' @ t \<and> listed_extension e' \<and> (t = [] \<or> (\<exists>q'. t = 63 # q')))
      \<longrightarrow> \<not> re_search EXCLUDE_EXT_REGEX v) \<and>
   (LF \<notin> set x \<and> 46 \<notin> set (query_part x) \<and>
    (final_extension (before_query x) = None \<or>
     (\<exists>e'. final_extension (before_query x) = Some e' \<and> \<not> listed_ignorecase e'))
      \<longrightarrow> \<not> re_search EXCLUDE_EXT_REGEX x)"
proof (intro conjI impI)
  assume e: "listed_extension e"
  then have le: "listed_ignorecase e" by (rule listed_extension_ignorecase)
  from exclude_ext_search_listed [OF le, of "[]" p]
  show "re_search EXCLUDE_EXT_REGEX (p @ 46 # e)" by simp
  from exclude_ext_search_listed [OF le, of "63 # q" p]
  show "re_search EXCLUDE_EXT_REGEX (p @ 46 # e @ 63 # q)" by simp
next
  assume "LF \<notin> set u \<and>
    \<not> (\<exists>p' e' t. u = p' @ 46 # e' @ t \<and> listed_ignorecase e' \<and> (t = [] \<or> (\<exists>q'. t = 63 # q')))"
  then show "\<not> re_search EXCLUDE_EXT_REGEX u"
    using exclude_ext_search_no_line_feed [of u] by blast
next
  assume "LF \<notin> set v \<and> (\<forall>c \<in> set v. c < 128) \<and>
    \<not> (\<exists>p' e' t. v = p' @ 46 # e' @ t \<and> listed_extension e' \<and> (t = [] \<or> (\<exists>q'. t = 63 # q')))"
  then show "\<not> re_search EXCLUDE_EXT_REGEX v"
    using exclude_ext_search_ascii [of v] by blast
next
  assume h: "LF \<notin> set x \<and> 46 \<notin> set (query_part x) \<and>
    (final_extension (before_query x) = None \<or>
     (\<exists>e'. final_extension (before_query x) = Some e' \<and> \<not> listed_ignorecase e'))"
  show "\<not> re_search EXCLUDE_EXT_REGEX x"
  proof
    assume "re_search EXCLUDE_EXT_REGEX x"
    with h exclude_ext_search_path_extension [of x]
    obtain e' where "final_extension (before_query x) = Some e'" and "listed_ignorecase e'"
      by blast
    with h show False by auto
  qed
qed

theorem exclude_ext_regex_listed_extensions_witness:
  "listed_extension (lit ''JS'') \<and>
   re_search EXCLUDE_EXT_REGEX (lit ''https://x.test/app.JS'') \<and>
   re_search EXCLUDE_EXT_REGEX (lit ''https://x.test/app.JS?x=1'') \<and>
   list_all (\<lambda>c. c \<noteq> LF \<and> c < 128) (lit ''https://x.test/a.php?x=1'') \<and>
   \<not> (\<exists>p e t. lit ''https://x.test/a.php?x=1'' = p @ 46 # e @ t \<and> listed_ignorecase e \<and>
         (t = [] \<or> (\<exists>q. t = 63 # q))) \<and>
   \<not> (\<exists>p e t. lit ''https://x.test/a.php?x=1'' = p @ 46 # e @ t \<and> listed_extension e \<and>
         (t = [] \<or> (\<exists>q. t = 63 # q))) \<and>
   46 \<notin> set (query_part (lit ''https://x.test/a.php?x=1'')) \<and>
   final_extension (before_query (lit ''https://x.test/a.php?x=1'')) = Some (lit ''php'') \<and>
   \<not> listed_ignorecase (lit ''php'') \<and>
   \<not> re_search EXCLUDE_EXT_REGEX (lit ''https://x.test/a.php?x=1'')"
proof -
  let ?u = "lit ''https://x.test/a.php?x=1''"
  have listed: "listed_extension (lit ''JS'')"
    by (simp add: listed_extension_def ascii_lower_def EXCLUDED_EXTENSIONS_def lit_def)
  have plain: "list_all (\<lambda>c. c \<noteq> LF \<and> c < 128) ?u"
    by (simp add: lit_def LF_def)
  then have lf: "LF \<notin> set ?u" and ascii: "\<forall>c \<in> set ?u. c < 128"
    by (auto simp: list_all_iff)
  have query: "46 \<notin> set (query_part ?u)"
    by (simp add: query_part_def lit_def)
  have ext: "final_extension (before_query ?u) = Some (lit ''php'')"
    by (simp add: final_extension_def before_query_def lit_def)
  have php: "\<not> listed_ignorecase (lit ''php'')"
    by (simp add: listed_ignorecase_def EXCLUDED_EXTENSIONS_def lit_def ignorecase_eq_def)
  from exclude_ext_regex_listed_extensions [where x = ?u] lf query ext php
  have not_excluded: "\<not> re_search EXCLUDE_EXT_REGEX ?u" by blast
  then have none: "\<not> (\<exists>p e t. ?u = p @ 46 # e @ t \<and> listed_ignorecase e \<and>
         (t = [] \<or> (\<exists>q. t = 63 # q)))"
    unfolding exclude_ext_search_iff by blast
  then have none': "\<not> (\<exists>p e t. ?u = p @ 46 # e @ t \<and> listed_extension e \<and>
         (t = [] \<or> (\<exists>q. t = 63 # q)))"
    using listed_extension_ignorecase by blast
  have app: "lit ''https://x.test/app'' @ 46 # lit ''JS'' = lit ''https://x.test/app.JS''"
    "lit ''https://x.test/app'' @ 46 # lit ''JS'' @ 63 # lit ''x=1'' = lit ''https://x.test/app.JS?x=1''"
    by (simp_all add: lit_def)
  from exclude_ext_regex_listed_extensions
    [of "lit ''JS''" "lit ''https://x.test/app''" "lit ''x=1''" ?u ?u ?u]
  show ?thesis
    using listed plain lf ascii none none' query ext php not_excluded unfolding app by blast
qed

text \<open>
  C2.  Code point 61 is \<open>=\<close>.  The filter step keeps a line of the pattern-matcher output
  if and only if it contains \<open>=\<close> and the extension-exclusion pattern does not match it,
  keeping order and repetitions; of the three URLs of the specification it keeps the
  first only.  In \<open>filter_with_gf_uro_httpx\<close>, once the merged file has lines and the
  pattern matcher has exited with status 0: if no line of its output is kept the function
  writes the empty final file, runs no further process and returns the number of
  pattern-matcher lines with three zeros; otherwise the kept lines, cut into batches, are
  what the normaliser is fed, batch by batch in order and at least once, and when the
  function returns counts the normaliser has been fed every batch, the first count is the
  number of pattern-matcher lines and the second the number of kept lines.  In the
  witness the pattern matcher prints four URLs, two are kept and, with the rate limit 1,
  each is fed to a normaliser process of its own.
\<close>

theorem structural_filter_retains:
  "(url \<in> set (structural_filter gf_lines) \<longleftrightarrow>
      url \<in> set gf_lines \<and> 61 \<in> set url \<and> \<not> re_search EXCLUDE_EXT_REGEX url) \<and>
   structural_filter gf_lines =
     filter (\<lambda>url. 61 \<in> set url \<and> \<not> re_search EXCLUDE_EXT_REGEX url) gf_lines \<and>
   lit ''='' = [61] \<and>
   structural_filter
     [lit ''https://x.test/a?x=1'', lit ''https://x.test/app.js?x=1'', lit ''https://x.test/a'']
     = [lit ''https://x.test/a?x=1''] \<and>
   (stored_lines (files w) merged_in = lines0 \<and> lines0 \<noteq> [] \<and>
    tool env [lit ''gf'', lit ''xss''] (Some (batch_input (sorted_list_of_set (set lines0))))
      (files w) (ext w) = (res, fs1, e1) \<and>
    t_returncode res = 0 \<and>
    structural_filter (output_lines res) = retained \<longrightarrow>
      (retained = [] \<longrightarrow>
         filter_with_gf_uro_httpx env merged_in final_out rate_limit verbose w =
           (Inr (length (output_lines res), 0, 0, 0),
            w\<lparr>files := fs1(final_out \<mapsto> []), ext := e1,
              events := events w @
                command_events verbose
                  \<lparr>c_args = [lit ''gf'', lit ''xss''],
                   c_input = Some (batch_input (sorted_list_of_set (set lines0))),
                   c_output_file = None, c_append = False\<rparr> res\<rparr>)) \<and>
      (retained \<noteq> [] \<longrightarrow>
         concat (chunked retained (batch_size rate_limit retained)) = retained \<and>
         prefix
           (inputs_of (lit ''uro'')
              (new_events w
                 (snd (filter_with_gf_uro_httpx env merged_in final_out rate_limit verbose w))))
           (map (\<lambda>b. Some (batch_input b)) (chunked retained (batch_size rate_limit retained))) \<and>
         inputs_of (lit ''uro'')
           (new_events w
              (snd (filter_with_gf_uro_httpx env merged_in final_out rate_limit verbose w))) \<noteq> [] \<and>
         (\<forall>a b c d.
            fst (filter_with_gf_uro_httpx env merged_in final_out rate_limit verbose w)
              = Inr (a, b, c, d) \<longrightarrow>
            a = length (output_lines res) \<and> b = length retained \<and>
            inputs_of (lit ''uro'')
              (new_events w
                 (snd (filter_with_gf_uro_httpx env merged_in final_out rate_limit verbose w)))
            = map (\<lambda>b. Some (batch_input b))
                (chunked retained (batch_size rate_limit retained)))))"
proof (intro conjI impI)
  show "url \<in> set (structural_filter gf_lines) \<longleftrightarrow>
      url \<in> set gf_lines \<and> 61 \<in> set url \<and> \<not> re_search EXCLUDE_EXT_REGEX url"
    by (auto simp: structural_filter_def)
  show "structural_filter gf_lines =
     filter (\<lambda>url. 61 \<in> set url \<and> \<not> re_search EXCLUDE_EXT_REGEX url) gf_lines"
    by (simp add: structural_filter_def)
  show "lit ''='' = [61]"
    by (simp add: lit_def)
  have "\<not> re_search EXCLUDE_EXT_REGEX (lit ''https://x.test/a?x=1'')"
    by (simp add: exclude_ext_eval)
  moreover have "re_search EXCLUDE_EXT_REGEX (lit ''https://x.test/app.js?x=1'')"
    by (simp add: exclude_ext_eval)
  moreover have "61 \<in> set (lit ''https://x.test/a?x=1'')"
    and "61 \<notin> set (lit ''https://x.test/a'')"
    by (simp_all add: lit_def)
  ultimately show "structural_filter
     [lit ''https://x.test/a?x=1'', lit ''https://x.test/app.js?x=1'', lit ''https://x.test/a'']
     = [lit ''https://x.test/a?x=1'']"
    by (simp add: structural_filter_def)
next
  assume h: "stored_lines (files w) merged_in = lines0 \<and> lines0 \<noteq> [] \<and>
    tool env [lit ''gf'', lit ''xss''] (Some (batch_input (sorted_list_of_set (set lines0))))
      (files w) (ext w) = (res, fs1, e1) \<and>
    t_returncode res = 0 \<and>
    structural_filter (output_lines res) = retained"
  assume empty: "retained = []"
  from h have l: "stored_lines (files w) merged_in = lines0" "lines0 \<noteq> []"
    and t: "tool env [lit ''gf'', lit ''xss''] (Some (batch_input (sorted_list_of_set (set lines0))))
      (files w) (ext w) = (res, fs1, e1)"
    and rc: "t_returncode res = 0"
    by simp_all
  from h empty filter_step_after_gf
    [OF l t rc, where final_out = final_out and rate_limit = rate_limit and verbose = verbose]
  show "filter_with_gf_uro_httpx env merged_in final_out rate_limit verbose w =
           (Inr (length (output_lines res), 0, 0, 0),
            w\<lparr>files := fs1(final_out \<mapsto> []), ext := e1,
              events := events w @
                command_events verbose
                  \<lparr>c_args = [lit ''gf'', lit ''xss''],
                   c_input = Some (batch_input (sorted_list_of_set (set lines0))),
                   c_output_file = None, c_append = False\<rparr> res\<rparr>)"
    by (simp add: Let_def)
next
  show "concat (chunked retained (batch_size rate_limit retained)) = retained"
    by (rule concat_chunked_batch_size)
next
  let ?F = "filter_with_gf_uro_httpx env merged_in final_out rate_limit verbose w"
  assume h: "stored_lines (files w) merged_in = lines0 \<and> lines0 \<noteq> [] \<and>
    tool env [lit ''gf'', lit ''xss''] (Some (batch_input (sorted_list_of_set (set lines0))))
      (files w) (ext w) = (res, fs1, e1) \<and>
    t_returncode res = 0 \<and>
    structural_filter (output_lines res) = retained"
  assume ne: "retained \<noteq> []"
  from h have l: "stored_lines (files w) merged_in = lines0" "lines0 \<noteq> []"
    and t: "tool env [lit ''gf'', lit ''xss''] (Some (batch_input (sorted_list_of_set (set lines0))))
      (files w) (ext w) = (res, fs1, e1)"
    and rc: "t_returncode res = 0"
    and f: "structural_filter (output_lines res) = retained"
    by simp_all
  from ne f have "structural_filter (output_lines res) \<noteq> []" by simp
  from filter_step_feeds_uro
    [OF l t rc this, where final_out = final_out and rate_limit = rate_limit and verbose = verbose] f
  have fed: "fed_uro (chunked retained (batch_size rate_limit retained))
      (length (output_lines res)) (length retained) (fst ?F) (new_events w (snd ?F))"
    by simp
  then show "prefix (inputs_of (lit ''uro'') (new_events w (snd ?F)))
      (map (\<lambda>b. Some (batch_input b)) (chunked retained (batch_size rate_limit retained)))"
    by (simp add: fed_uro_def)
  from ne have "chunked retained (batch_size rate_limit retained) \<noteq> []"
    using concat_chunked_batch_size [of retained rate_limit] by auto
  with fed show "inputs_of (lit ''uro'') (new_events w (snd ?F)) \<noteq> []"
    by (simp add: fed_uro_def)
  from fed show "\<forall>a b c d. fst ?F = Inr (a, b, c, d) \<longrightarrow>
      a = length (output_lines res) \<and> b = length retained \<and>
      inputs_of (lit ''uro'') (new_events w (snd ?F))
      = map (\<lambda>b. Some (batch_input b)) (chunked retained (batch_size rate_limit retained))"
    by (simp add: fed_uro_def)
qed

theorem structural_filter_retains_witness:
  "stored_lines [merged_file \<mapsto> lit ''https://x.test/seen?id=7'' @ [LF]] merged_file
     = [lit ''https://x.test/seen?id=7''] \<and>
   t_returncode (example_script 0 [] 0 (lit ''gf'')) = 0 \<and>
   output_lines (example_script 0 [] 0 (lit ''gf''))
     = [lit ''https://x.test/a?x=1'', lit ''https://x.test/app.js?x=1'', lit ''https://x.test/a'',
        lit ''https://x.test/b?y=2''] \<and>
   structural_filter (output_lines (example_script 0 [] 0 (lit ''gf'')))
     = [lit ''https://x.test/a?x=1'', lit ''https://x.test/b?y=2''] \<and>
   inputs_of (lit ''uro'')
     (new_events
        \<lparr>files = [merged_file \<mapsto> lit ''https://x.test/seen?id=7'' @ [LF]], ext = (), events = []\<rparr>
        (snd (filter_with_gf_uro_httpx (scripted_env Some (example_script 0 [] 0)) merged_file
                merged_file 1 False
                \<lparr>files = [merged_file \<mapsto> lit ''https://x.test/seen?id=7'' @ [LF]], ext = (),
                 events = []\<rparr>)))
     = [Some (lit ''https://x.test/a?x=1'' @ [LF]), Some (lit ''https://x.test/b?y=2'' @ [LF])] \<and>
   fst (filter_with_gf_uro_httpx (scripted_env Some (example_script 0 [] 0)) merged_file
          merged_file 1 False
          \<lparr>files = [merged_file \<mapsto> lit ''https://x.test/seen?id=7'' @ [LF]], ext = (),
           events = []\<rparr>)
     = Inr (4, 2, 2, 1)"
proof -
  let ?env = "scripted_env Some (example_script 0 [] 0)"
  let ?w = "\<lparr>files = [merged_file \<mapsto> lit ''https://x.test/seen?id=7'' @ [LF]], ext = (),
             events = []\<rparr> :: unit world"
  let ?res = "example_script 0 [] 0 (lit ''gf'')"
  let ?F = "filter_with_gf_uro_httpx ?env merged_file merged_file 1 False ?w"
  let ?kept = "[lit ''https://x.test/a?x=1'', lit ''https://x.test/b?y=2'']"
  have stored: "stored_lines [merged_file \<mapsto> lit ''https://x.test/seen?id=7'' @ [LF]] merged_file
      = [lit ''https://x.test/seen?id=7'']"
    by (simp add: text_eval)
  then have l: "stored_lines (files ?w) merged_file = [lit ''https://x.test/seen?id=7'']"
    by simp
  have t: "tool ?env [lit ''gf'', lit ''xss''] X (files ?w) (ext ?w) = (?res, files ?w, ())" for X
    by (simp add: scripted_env_def)
  have rc: "t_returncode ?res = 0"
    by (simp add: example_script_def lit_def)
  have out: "output_lines ?res
      = [lit ''https://x.test/a?x=1'', lit ''https://x.test/app.js?x=1'', lit ''https://x.test/a'',
         lit ''https://x.test/b?y=2'']"
    by (simp add: output_lines_def example_script_def py_splitlines_def py_islinebreak_def lit_def
          LF_def CR_def)
  have "\<not> re_search EXCLUDE_EXT_REGEX (lit ''https://x.test/a?x=1'')"
    by (simp add: exclude_ext_eval)
  moreover have "\<not> re_search EXCLUDE_EXT_REGEX (lit ''https://x.test/b?y=2'')"
    by (simp add: exclude_ext_eval)
  moreover have "re_search EXCLUDE_EXT_REGEX (lit ''https://x.test/app.js?x=1'')"
    by (simp add: exclude_ext_eval)
  moreover have "61 \<in> set (lit ''https://x.test/a?x=1'')"
    and "61 \<in> set (lit ''https://x.test/b?y=2'')"
    and "61 \<notin> set (lit ''https://x.test/a'')"
    by (simp_all add: lit_def)
  ultimately have kept: "structural_filter (output_lines ?res) = ?kept"
    unfolding out by (simp add: structural_filter_def)
  have batches: "chunked ?kept (batch_size 1 ?kept)
      = [[lit ''https://x.test/a?x=1''], [lit ''https://x.test/b?y=2'']]"
    by (simp add: batch_size_def chunked_def chunked_from.simps slice_def)
  have inp: "batch_input [x] = x @ [LF]" for x
    by (simp add: batch_input_def)
  from structural_filter_retains
    [where w = ?w and merged_in = merged_file and ?lines0.0 = "[lit ''https://x.test/seen?id=7'']"
       and env = ?env and res = ?res and ?fs1.0 = "files ?w" and ?e1.0 = "()"
       and retained = ?kept and final_out = merged_file
       and rate_limit = 1 and verbose = False]
    l t rc kept
  have counts: "\<forall>a b c d. fst ?F = Inr (a, b, c, d) \<longrightarrow>
          a = length (output_lines ?res) \<and> b = length ?kept \<and>
          inputs_of (lit ''uro'') (new_events ?w (snd ?F))
          = [Some (lit ''https://x.test/a?x=1'' @ [LF]), Some (lit ''https://x.test/b?y=2'' @ [LF])]"
    unfolding batches by (simp add: inp)
  have ret: "fst ?F = Inr (4, 2, 2, 1)"
    by (simp add: filter_with_gf_uro_httpx_def normalize_and_probe_def structural_filter_def
          exclude_ext_eval stored_lines_def render_def unique_preserve_order_def merged_file_def
          run_eval)
  from counts ret have fed: "inputs_of (lit ''uro'') (new_events ?w (snd ?F))
      = [Some (lit ''https://x.test/a?x=1'' @ [LF]), Some (lit ''https://x.test/b?y=2'' @ [LF])]"
    by blast
  from stored rc out kept fed ret show ?thesis by blast
qed

text \<open>
  C3.  \<open>unique_preserve_order\<close> is idempotent; its output is a subsequence of its
  input, has no duplicates and the same elements as the input, and is the input
  restricted to the positions at which an element occurs for the first time, in the order
  of these positions.
\<close>

theorem unique_preserve_order_idempotent_first_occurrences:
  "unique_preserve_order (unique_preserve_order xs) = unique_preserve_order xs \<and>
   subseq (unique_preserve_order xs) xs \<and>
   distinct (unique_preserve_order xs) \<and>
   set (unique_preserve_order xs) = set xs \<and>
   unique_preserve_order xs =
     map (\<lambda>i. xs ! i) (filter (\<lambda>i. xs ! i \<notin> set (take i xs)) [0..<length xs])"
  using unique_preserve_order_distinct [OF distinct_unique_preserve_order, of xs]
    subseq_unique_preserve_order [of xs] distinct_unique_preserve_order [of xs]
    set_unique_preserve_order [of xs] unique_preserve_order_first_occurrences [of xs]
  by blast

text \<open>
  C4.  For every chunk size of at least 1 the chunks of \<open>chunked\<close>, concatenated in order,
  are the sequence; for every size of at most 0 \<open>chunked\<close> yields one chunk, the whole
  sequence.
\<close>

theorem chunked_concat_and_single_chunk:
  "(1 \<le> sz \<longrightarrow> concat (chunked seq sz) = seq) \<and> (sz \<le> 0 \<longrightarrow> chunked seq sz = [seq])"
  by (simp add: chunked_def concat_chunked_from)

theorem chunked_concat_and_single_chunk_witness:
  "(1::int) \<le> 2 \<and> concat (chunked [1, 2, 3, 4, 5 :: nat] 2) = [1, 2, 3, 4, 5] \<and>
   chunked [1, 2, 3, 4, 5 :: nat] 2 = [[1, 2], [3, 4], [5]] \<and>
   (-1::int) \<le> 0 \<and> chunked [1, 2, 3 :: nat] (-1) = [[1, 2, 3]]"
  using chunked_concat_and_single_chunk [of 2 "[1, 2, 3, 4, 5 :: nat]"]
    chunked_concat_and_single_chunk [of "-1" "[1, 2, 3 :: nat]"]
  by (simp add: chunked_def chunked_from.simps slice_def)

section \<open>The rate limit\<close>

text \<open>
  C10.  With a rate limit of at most 0 the four batching sites, and \<open>main\<close> as a whole, are
  the same functions of the world as with the rate limit 0; the list of batches at a site,
  \<open>chunked seq (batch_size rate_limit seq)\<close>, is the one batch \<open>[seq]\<close>; and no run of
  \<open>subfinder_to_httpx\<close>, \<open>run_gau\<close> or \<open>filter_with_gf_uro_httpx\<close> sleeps.  At each site
  the whole input goes to one process: when the enumerator has exited with status 0 and
  printed subdomains, \<open>subfinder_to_httpx\<close> runs the liveness prober once, on all of them;
  when the subdomains file has lines, \<open>run_gau\<close> runs \<open>gau\<close> once, on all of them; when
  the first loop of \<open>filter_with_gf_uro_httpx\<close> is reached, the normaliser runs once, on
  all the kept lines; and when the normaliser has exited with status 0 and the second
  loop is reached, the liveness prober runs once, on all the normalised lines.  The
  witness runs the three functions with the rate limit -3.
\<close>

theorem nonpositive_rate_limit_is_unlimited:
  "rate_limit \<le> 0 \<longrightarrow>
     chunked seq (batch_size rate_limit seq) = [seq] \<and>
     subfinder_to_httpx env domain subs_out rate_limit verbose =
       subfinder_to_httpx env domain subs_out 0 verbose \<and>
     run_gau env subs_in out_file rate_limit verbose = run_gau env subs_in out_file 0 verbose \<and>
     filter_with_gf_uro_httpx env merged_in final_out rate_limit verbose =
       filter_with_gf_uro_httpx env merged_in final_out 0 verbose \<and>
     main env (a\<lparr>arg_rate_limit := rate_limit\<rparr>) = main env (a\<lparr>arg_rate_limit := 0\<rparr>) \<and>
     list_all (\<lambda>ev. \<not> is_sleep ev)
       (new_events w (snd (subfinder_to_httpx env domain subs_out rate_limit verbose w))) \<and>
     list_all (\<lambda>ev. \<not> is_sleep ev)
       (new_events w (snd (run_gau env subs_in out_file rate_limit verbose w))) \<and>
     list_all (\<lambda>ev. \<not> is_sleep ev)
       (new_events w (snd (filter_with_gf_uro_httpx env merged_in final_out rate_limit verbose w))) \<and>
     (tool env [lit ''subfinder'', lit ''-d'', domain, lit ''-all'', lit ''-silent''] None
        (files w) (ext w) = (rs, fss, es) \<and>
      t_returncode rs = 0 \<and>
      map py_strip (filter (\<lambda>s. py_strip s \<noteq> []) (output_lines rs)) = subdomains \<and>
      subdomains \<noteq> [] \<longrightarrow>
        inputs_of (lit ''httpx'')
          (new_events w (snd (subfinder_to_httpx env domain subs_out rate_limit verbose w)))
        = [Some (batch_input subdomains)]) \<and>
     (stored_lines (files w) subs_in = subs \<and> subs \<noteq> [] \<longrightarrow>
        inputs_of (lit ''gau'')
          (new_events w (snd (run_gau env subs_in out_file rate_limit verbose w)))
        = [Some (batch_input subs)]) \<and>
     (stored_lines (files w) merged_in = lines0 \<and> lines0 \<noteq> [] \<and>
      tool env [lit ''gf'', lit ''xss''] (Some (batch_input (sorted_list_of_set (set lines0))))
        (files w) (ext w) = (rg, fsg, eg) \<and>
      t_returncode rg = 0 \<and>
      structural_filter (output_lines rg) = filtered \<and> filtered \<noteq> [] \<longrightarrow>
        inputs_of (lit ''uro'')
          (new_events w
             (snd (filter_with_gf_uro_httpx env merged_in final_out rate_limit verbose w)))
        = [Some (batch_input filtered)] \<and>
        (tool env [lit ''uro''] (Some (batch_input filtered)) (fsg(final_out := None)) eg
           = (ru, fsu, eu) \<and>
         t_returncode ru = 0 \<and>
         unique_preserve_order (filter (\<lambda>s. py_strip s \<noteq> []) (output_lines ru)) = normalized \<and>
         normalized \<noteq> [] \<longrightarrow>
           inputs_of (lit ''httpx'')
             (new_events w
                (snd (filter_with_gf_uro_httpx env merged_in final_out rate_limit verbose w)))
           = [Some (batch_input normalized)]))"
proof (rule impI)
  assume r: "rate_limit \<le> 0"
  note s1 = io_spec_new_events [OF no_sleep_subfinder_to_httpx [OF r]]
  note s2 = io_spec_new_events [OF no_sleep_run_gau [OF r]]
  note s3 = io_spec_new_events [OF no_sleep_filter_with_gf_uro_httpx [OF r]]
  show "chunked seq (batch_size rate_limit seq) = [seq] \<and>
     subfinder_to_httpx env domain subs_out rate_limit verbose =
       subfinder_to_httpx env domain subs_out 0 verbose \<and>
     run_gau env subs_in out_file rate_limit verbose = run_gau env subs_in out_file 0 verbose \<and>
     filter_with_gf_uro_httpx env merged_in final_out rate_limit verbose =
       filter_with_gf_uro_httpx env merged_in final_out 0 verbose \<and>
     main env (a\<lparr>arg_rate_limit := rate_limit\<rparr>) = main env (a\<lparr>arg_rate_limit := 0\<rparr>) \<and>
     list_all (\<lambda>ev. \<not> is_sleep ev)
       (new_events w (snd (subfinder_to_httpx env domain subs_out rate_limit verbose w))) \<and>
     list_all (\<lambda>ev. \<not> is_sleep ev)
       (new_events w (snd (run_gau env subs_in out_file rate_limit verbose w))) \<and>
     list_all (\<lambda>ev. \<not> is_sleep ev)
       (new_events w (snd (filter_with_gf_uro_httpx env merged_in final_out rate_limit verbose w))) \<and>
     (tool env [lit ''subfinder'', lit ''-d'', domain, lit ''-all'', lit ''-silent''] None
        (files w) (ext w) = (rs, fss, es) \<and>
      t_returncode rs = 0 \<and>
      map py_strip (filter (\<lambda>s. py_strip s \<noteq> []) (output_lines rs)) = subdomains \<and>
      subdomains \<noteq> [] \<longrightarrow>
        inputs_of (lit ''httpx'')
          (new_events w (snd (subfinder_to_httpx env domain subs_out rate_limit verbose w)))
        = [Some (batch_input subdomains)]) \<and>
     (stored_lines (files w) subs_in = subs \<and> subs \<noteq> [] \<longrightarrow>
        inputs_of (lit ''gau'')
          (new_events w (snd (run_gau env subs_in out_file rate_limit verbose w)))
        = [Some (batch_input subs)]) \<and>
     (stored_lines (files w) merged_in = lines0 \<and> lines0 \<noteq> [] \<and>
      tool env [lit ''gf'', lit ''xss''] (Some (batch_input (sorted_list_of_set (set lines0))))
        (files w) (ext w) = (rg, fsg, eg) \<and>
      t_returncode rg = 0 \<and>
      structural_filter (output_lines rg) = filtered \<and> filtered \<noteq> [] \<longrightarrow>
        inputs_of (lit ''uro'')
          (new_events w
             (snd (filter_with_gf_uro_httpx env merged_in final_out rate_limit verbose w)))
        = [Some (batch_input filtered)] \<and>
        (tool env [lit ''uro''] (Some (batch_input filtered)) (fsg(final_out := None)) eg
           = (ru, fsu, eu) \<and>
         t_returncode ru = 0 \<and>
         unique_preserve_order (filter (\<lambda>s. py_strip s \<noteq> []) (output_lines ru)) = normalized \<and>
         normalized \<noteq> [] \<longrightarrow>
           inputs_of (lit ''httpx'')
             (new_events w
                (snd (filter_with_gf_uro_httpx env merged_in final_out rate_limit verbose w)))
           = [Some (batch_input normalized)]))"
    apply (intro conjI)
    subgoal by (rule chunked_unlimited [OF r])
    subgoal by (rule subfinder_to_httpx_unlimited [OF r])
    subgoal by (rule run_gau_unlimited [OF r])
    subgoal by (rule filter_with_gf_uro_httpx_unlimited [OF r])
    subgoal by (rule main_unlimited [OF r])
    subgoal using s1 by blast
    subgoal using s2 by blast
    subgoal using s3 by blast
    subgoal
      apply (intro impI)
      apply (elim conjE)
      apply (rule discovery_single_batch [OF r]; assumption)
      done
    subgoal
      apply (intro impI)
      apply (elim conjE)
      apply (rule gau_single_batch [OF r]; assumption)
      done
    subgoal
      apply (intro impI conjI)
      subgoal
        apply (elim conjE)
        apply (rule uro_single_batch [OF r]; assumption)
        done
      subgoal
        apply (elim conjE)
        apply (rule probe_single_batch [OF r]; assumption)
        done
      done
    done
qed

theorem nonpositive_rate_limit_is_unlimited_witness:
  "(- 3 :: int) \<le> 0 \<and>
   chunked [lit ''a.x.test'', lit ''b.x.test'', lit ''c.x.test'']
     (batch_size (- 3) [lit ''a.x.test'', lit ''b.x.test'', lit ''c.x.test''])
   = [[lit ''a.x.test'', lit ''b.x.test'', lit ''c.x.test'']] \<and>
   inputs_of (lit ''httpx'')
     (new_events
        \<lparr>files = [subs_file \<mapsto> lit ''a.x.test'' @ [LF] @ lit ''b.x.test'' @ [LF],
                 merged_file \<mapsto> lit ''https://x.test/seen?id=7'' @ [LF]],
        ext = (), events = []\<rparr>
        (snd (subfinder_to_httpx
                (scripted_env Some
           (example_script 0
              (lit ''a.x.test'' @ [LF] @ lit ''b.x.test'' @ [LF] @ lit ''c.x.test'' @ [LF]) 0))
                (lit ''x.test'') subs_file (- 3) False
                \<lparr>files = [subs_file \<mapsto> lit ''a.x.test'' @ [LF] @ lit ''b.x.test'' @ [LF],
                 merged_file \<mapsto> lit ''https://x.test/seen?id=7'' @ [LF]],
        ext = (), events = []\<rparr>)))
   = [Some (lit ''a.x.test'' @ [LF] @ lit ''b.x.test'' @ [LF] @ lit ''c.x.test'' @ [LF])] \<and>
   stored_lines (files \<lparr>files = [subs_file \<mapsto> lit ''a.x.test'' @ [LF] @ lit ''b.x.test'' @ [LF],
                 merged_file \<mapsto> lit ''https://x.test/seen?id=7'' @ [LF]],
        ext = (), events = []\<rparr>) subs_file = [lit ''a.x.test'', lit ''b.x.test''] \<and>
   inputs_of (lit ''gau'')
     (new_events
        \<lparr>files = [subs_file \<mapsto> lit ''a.x.test'' @ [LF] @ lit ''b.x.test'' @ [LF],
                 merged_file \<mapsto> lit ''https://x.test/seen?id=7'' @ [LF]],
        ext = (), events = []\<rparr>
        (snd (run_gau
                (scripted_env Some
           (example_script 0
              (lit ''a.x.test'' @ [LF] @ lit ''b.x.test'' @ [LF] @ lit ''c.x.test'' @ [LF]) 0))
                subs_file gau_file (- 3) False
                \<lparr>files = [subs_file \<mapsto> lit ''a.x.test'' @ [LF] @ lit ''b.x.test'' @ [LF],
                 merged_file \<mapsto> lit ''https://x.test/seen?id=7'' @ [LF]],
        ext = (), events = []\<rparr>)))
   = [Some (lit ''a.x.test'' @ [LF] @ lit ''b.x.test'' @ [LF])] \<and>
   new_events
     \<lparr>files = [subs_file \<mapsto> lit ''a.x.test'' @ [LF] @ lit ''b.x.test'' @ [LF],
                 merged_file \<mapsto> lit ''https://x.test/seen?id=7'' @ [LF]],
        ext = (), events = []\<rparr>
     (snd (run_gau
             (scripted_env Some
           (example_script 0
              (lit ''a.x.test'' @ [LF] @ lit ''b.x.test'' @ [LF] @ lit ''c.x.test'' @ [LF]) 0))
             subs_file gau_file (- 3) False
             \<lparr>files = [subs_file \<mapsto> lit ''a.x.test'' @ [LF] @ lit ''b.x.test'' @ [LF],
                 merged_file \<mapsto> lit ''https://x.test/seen?id=7'' @ [LF]],
        ext = (), events = []\<rparr>))
   = [Exec \<lparr>c_args = [lit ''gau'', lit ''--subs'', lit ''-o'', gau_file],
             c_input = Some (lit ''a.x.test'' @ [LF] @ lit ''b.x.test'' @ [LF]),
             c_output_file = None, c_append = False\<rparr> 0] \<and>
   inputs_of (lit ''uro'')
     (new_events
        \<lparr>files = [subs_file \<mapsto> lit ''a.x.test'' @ [LF] @ lit ''b.x.test'' @ [LF],
                 merged_file \<mapsto> lit ''https://x.test/seen?id=7'' @ [LF]],
        ext = (), events = []\<rparr>
        (snd (filter_with_gf_uro_httpx
                (scripted_env Some
           (example_script 0
              (lit ''a.x.test'' @ [LF] @ lit ''b.x.test'' @ [LF] @ lit ''c.x.test'' @ [LF]) 0))
                merged_file merged_file (- 3) False
                \<lparr>files = [subs_file \<mapsto> lit ''a.x.test'' @ [LF] @ lit ''b.x.test'' @ [LF],
                 merged_file \<mapsto> lit ''https://x.test/seen?id=7'' @ [LF]],
        ext = (), events = []\<rparr>)))
   = [Some (lit ''https://x.test/a?x=1'' @ [LF] @ lit ''https://x.test/b?y=2'' @ [LF])] \<and>
   inputs_of (lit ''httpx'')
     (new_events
        \<lparr>files = [subs_file \<mapsto> lit ''a.x.test'' @ [LF] @ lit ''b.x.test'' @ [LF],
                 merged_file \<mapsto> lit ''https://x.test/seen?id=7'' @ [LF]],
        ext = (), events = []\<rparr>
        (snd (filter_with_gf_uro_httpx
                (scripted_env Some
           (example_script 0
              (lit ''a.x.test'' @ [LF] @ lit ''b.x.test'' @ [LF] @ lit ''c.x.test'' @ [LF]) 0))
                merged_file merged_file (- 3) False
                \<lparr>files = [subs_file \<mapsto> lit ''a.x.test'' @ [LF] @ lit ''b.x.test'' @ [LF],
                 merged_file \<mapsto> lit ''https://x.test/seen?id=7'' @ [LF]],
        ext = (), events = []\<rparr>)))
   = [Some (lit ''https://x.test/a?x=1'' @ [LF] @ lit ''https://x.test/b?y=2'' @ [LF])] \<and>
   list_all (\<lambda>ev. \<not> is_sleep ev)
     (new_events
        \<lparr>files = [subs_file \<mapsto> lit ''a.x.test'' @ [LF] @ lit ''b.x.test'' @ [LF],
                 merged_file \<mapsto> lit ''https://x.test/seen?id=7'' @ [LF]],
        ext = (), events = []\<rparr>
        (snd (filter_with_gf_uro_httpx
                (scripted_env Some
           (example_script 0
              (lit ''a.x.test'' @ [LF] @ lit ''b.x.test'' @ [LF] @ lit ''c.x.test'' @ [LF]) 0))
                merged_file merged_file (- 3) False
                \<lparr>files = [subs_file \<mapsto> lit ''a.x.test'' @ [LF] @ lit ''b.x.test'' @ [LF],
                 merged_file \<mapsto> lit ''https://x.test/seen?id=7'' @ [LF]],
        ext = (), events = []\<rparr>)))"
proof -
  let ?env = "(scripted_env Some
           (example_script 0
              (lit ''a.x.test'' @ [LF] @ lit ''b.x.test'' @ [LF] @ lit ''c.x.test'' @ [LF]) 0))"
  let ?w = "\<lparr>files = [subs_file \<mapsto> lit ''a.x.test'' @ [LF] @ lit ''b.x.test'' @ [LF],
                 merged_file \<mapsto> lit ''https://x.test/seen?id=7'' @ [LF]],
        ext = (), events = []\<rparr> :: unit world"
  let ?subdomains = "[lit ''a.x.test'', lit ''b.x.test'', lit ''c.x.test'']"
  let ?subs = "[lit ''a.x.test'', lit ''b.x.test'']"
  let ?kept = "[lit ''https://x.test/a?x=1'', lit ''https://x.test/b?y=2'']"
  let ?rs = "example_script 0
      (lit ''a.x.test'' @ [LF] @ lit ''b.x.test'' @ [LF] @ lit ''c.x.test'' @ [LF]) 0
      (lit ''subfinder'')"
  let ?rg = "example_script 0
      (lit ''a.x.test'' @ [LF] @ lit ''b.x.test'' @ [LF] @ lit ''c.x.test'' @ [LF]) 0 (lit ''gf'')"
  let ?ru = "example_script 0
      (lit ''a.x.test'' @ [LF] @ lit ''b.x.test'' @ [LF] @ lit ''c.x.test'' @ [LF]) 0 (lit ''uro'')"
  have neg: "(- 3 :: int) \<le> 0" by simp
  have ts: "tool ?env [lit ''subfinder'', lit ''-d'', lit ''x.test'', lit ''-all'', lit ''-silent'']
      None (files ?w) (ext ?w) = (?rs, files ?w, ())"
    by (simp add: scripted_env_def)
  have rcs: "t_returncode ?rs = 0"
    by (simp add: example_script_def lit_def)
  have outs: "map py_strip (filter (\<lambda>s. py_strip s \<noteq> []) (output_lines ?rs)) = ?subdomains"
    by (simp add: output_lines_def example_script_def py_splitlines_def py_islinebreak_def
          text_eval)
  have subs: "stored_lines (files ?w) subs_file = ?subs"
    by (simp add: text_eval subs_file_def merged_file_def)
  have merged: "stored_lines (files ?w) merged_file = [lit ''https://x.test/seen?id=7'']"
    by (simp add: text_eval subs_file_def merged_file_def)
  have tg: "tool ?env [lit ''gf'', lit ''xss''] X (files ?w) (ext ?w) = (?rg, files ?w, ())" for X
    by (simp add: scripted_env_def)
  have rcg: "t_returncode ?rg = 0"
    by (simp add: example_script_def lit_def)
  have outg: "output_lines ?rg
      = [lit ''https://x.test/a?x=1'', lit ''https://x.test/app.js?x=1'', lit ''https://x.test/a'',
         lit ''https://x.test/b?y=2'']"
    by (simp add: output_lines_def example_script_def py_splitlines_def py_islinebreak_def lit_def
          LF_def CR_def)
  have "\<not> re_search EXCLUDE_EXT_REGEX (lit ''https://x.test/a?x=1'')"
    by (simp add: exclude_ext_eval)
  moreover have "\<not> re_search EXCLUDE_EXT_REGEX (lit ''https://x.test/b?y=2'')"
    by (simp add: exclude_ext_eval)
  moreover have "re_search EXCLUDE_EXT_REGEX (lit ''https://x.test/app.js?x=1'')"
    by (simp add: exclude_ext_eval)
  moreover have "61 \<in> set (lit ''https://x.test/a?x=1'')"
    and "61 \<in> set (lit ''https://x.test/b?y=2'')"
    and "61 \<notin> set (lit ''https://x.test/a'')"
    by (simp_all add: lit_def)
  ultimately have kept: "structural_filter (output_lines ?rg) = ?kept"
    unfolding outg by (simp add: structural_filter_def)
  have tu: "tool ?env [lit ''uro''] X ((files ?w)(merged_file := None)) ()
      = (?ru, (files ?w)(merged_file := None), ())" for X
    by (simp add: scripted_env_def)
  have rcu: "t_returncode ?ru = 0"
    by (simp add: example_script_def lit_def)
  have outu: "unique_preserve_order (filter (\<lambda>s. py_strip s \<noteq> []) (output_lines ?ru)) = ?kept"
    by (simp add: output_lines_def example_script_def py_splitlines_def py_islinebreak_def
          text_eval)
  have in3: "batch_input ?subdomains
      = lit ''a.x.test'' @ [LF] @ lit ''b.x.test'' @ [LF] @ lit ''c.x.test'' @ [LF]"
    and in2: "batch_input ?subs = lit ''a.x.test'' @ [LF] @ lit ''b.x.test'' @ [LF]"
    and ink: "batch_input ?kept
      = lit ''https://x.test/a?x=1'' @ [LF] @ lit ''https://x.test/b?y=2'' @ [LF]"
    by (simp_all add: batch_input_def)
  have ne: "?subdomains \<noteq> []" "?subs \<noteq> []" "[lit ''https://x.test/seen?id=7''] \<noteq> []"
    "?kept \<noteq> []"
    by simp_all
  note tg' = tg [of "Some (batch_input (sorted_list_of_set (set [lit ''https://x.test/seen?id=7''])))"]
  note tu' = tu [of "Some (batch_input ?kept)"]
  note inst = nonpositive_rate_limit_is_unlimited
    [where a = "\<lparr>arg_domain = lit ''x.test'', arg_mode = All_sources, arg_rate_limit = 0,
                  arg_verbose = False\<rparr>" and rate_limit = "- 3" and seq = ?subdomains and env = ?env and domain = "lit ''x.test''"
       and subs_out = subs_file and verbose = False and subs_in = subs_file and out_file = gau_file
       and merged_in = merged_file and final_out = merged_file and w = ?w
       and rs = ?rs and fss = "files ?w" and es = "()" and subdomains = ?subdomains
       and subs = ?subs and ?lines0.0 = "[lit ''https://x.test/seen?id=7'']"
       and rg = ?rg and fsg = "files ?w" and eg = "()" and filtered = ?kept
       and ru = ?ru and fsu = "(files ?w)(merged_file := None)" and eu = "()"
       and normalized = ?kept]
  from inst neg
  have c1: "chunked ?subdomains (batch_size (- 3) ?subdomains) = [?subdomains]"
    by blast
  from inst neg ts rcs outs ne
  have c2: "inputs_of (lit ''httpx'')
      (new_events ?w (snd (subfinder_to_httpx ?env (lit ''x.test'') subs_file (- 3) False ?w)))
      = [Some (batch_input ?subdomains)]"
    by blast
  from inst neg subs ne
  have c3: "inputs_of (lit ''gau'')
      (new_events ?w (snd (run_gau ?env subs_file gau_file (- 3) False ?w)))
      = [Some (batch_input ?subs)]"
    by blast
  from inst neg merged tg' rcg kept ne
  have c4: "inputs_of (lit ''uro'')
      (new_events ?w (snd (filter_with_gf_uro_httpx ?env merged_file merged_file (- 3) False ?w)))
      = [Some (batch_input ?kept)]"
    by blast
  from inst neg merged tg' rcg kept tu' rcu outu ne
  have c5: "inputs_of (lit ''httpx'')
      (new_events ?w (snd (filter_with_gf_uro_httpx ?env merged_file merged_file (- 3) False ?w)))
      = [Some (batch_input ?kept)]"
    by blast
  from inst neg
  have c6: "list_all (\<lambda>ev. \<not> is_sleep ev)
      (new_events ?w (snd (filter_with_gf_uro_httpx ?env merged_file merged_file (- 3) False ?w)))"
    by blast
  have c7: "new_events ?w (snd (run_gau ?env subs_file gau_file (- 3) False ?w))
      = [Exec \<lparr>c_args = [lit ''gau'', lit ''--subs'', lit ''-o'', gau_file],
               c_input = Some (lit ''a.x.test'' @ [LF] @ lit ''b.x.test'' @ [LF]),
               c_output_file = None, c_append = False\<rparr> 0]"
    by (simp add: run_gau_def gau_file_def merged_file_def run_eval)
  from neg c1 c2 [unfolded in3] subs c3 [unfolded in2] c7 c4 [unfolded ink] c5 [unfolded ink] c6
  show ?thesis by blast
qed

end
